theory Spec2Isabelle
  imports Complex_Main
begin

section \<open>Errors and signals\<close>

text \<open>
  The repository is one notebook, \<^verbatim>\<open>preprocessing_notebook.ipynb\<close>, that sequences
  calls into the packages \<^verbatim>\<open>meeg_tools\<close> and \<^verbatim>\<open>mne\<close> and ends with a hand-written
  1/f normalisation of a time-frequency power array. Python exceptions are values of
  \<open>error\<close>; a computation that may raise returns \<open>error + 'a\<close> with \<open>Inl\<close> for the
  exception.
\<close>

datatype error = IndexError | KeyError | TypeError | NameError | InsufficientDataError
  | ExternalError

text \<open>A continuous recording is stored channel by channel: \<open>raw ! c ! t\<close> is the sample
  of channel \<open>c\<close> at time index \<open>t\<close>. Where a procedure is modelled from the spec, sample
  values are exact reals.\<close>

type_synonym signal = "real list list"

definition n_times :: "signal \<Rightarrow> nat" where
  "n_times raw = (case raw of [] \<Rightarrow> 0 | ch # _ \<Rightarrow> length ch)"

definition is_signal :: "signal \<Rightarrow> bool" where
  "is_signal raw \<longleftrightarrow> (\<forall>ch \<in> set raw. length ch = n_times raw)"

section \<open>Double-precision division\<close>

text \<open>
  The power array and the frequency axis are numpy arrays of \<^verbatim>\<open>float64\<close>, and the
  notebook divides them with numpy's \<^verbatim>\<open>/\<close>, which is IEEE 754 binary64 division,
  rounding to nearest with ties to even and returning \<^verbatim>\<open>inf\<close> or \<^verbatim>\<open>nan\<close>
  (with a warning, not an exception) where a Python float division would raise. A
  \<open>f64\<close> is a finite value, given by the rational it denotes (\<open>Fin 0\<close> is
  \<^verbatim>\<open>+0.0\<close>), the negative zero, an infinity or \<^verbatim>\<open>nan\<close>.

  \<open>round_f64\<close> rounds a rational to the nearest double: the significand has 53 bits,
  the least exponent of a quantum is \<open>-1074\<close> (below \<open>2^-1022\<close> the values are
  subnormal), a tie goes to the even significand, and a result of \<open>2^1024\<close> or more
  is an infinity. \<open>ilog2 x\<close> is the exponent \<open>e\<close> with \<open>2^e \<le> x < 2^(e+1)\<close> of a
  positive rational.
\<close>

datatype f64 = Fin rat | NegZero | PosInf | NegInf | NaN

function bit_length :: "int \<Rightarrow> int" where
  "bit_length n = (if n \<le> 0 then 0 else bit_length (n div 2) + 1)"
  by pat_completeness auto
termination
  by (relation "measure nat") auto

declare bit_length.simps [simp del]

definition pow2 :: "int \<Rightarrow> rat" where
  "pow2 k = (if 0 \<le> k then 2 ^ nat k else 1 / 2 ^ nat (- k))"

definition ilog2 :: "rat \<Rightarrow> int" where
  "ilog2 x =
     (case quotient_of x of
        (a, b) \<Rightarrow>
          let k = bit_length a - bit_length b
          in if pow2 k \<le> x then k else k - 1)"

definition round_half_even :: "rat \<Rightarrow> int" where
  "round_half_even y =
     (let fl = \<lfloor>y\<rfloor>; r = y - of_int fl
      in if r < 1 / 2 then fl
         else if 1 / 2 < r then fl + 1
         else if even fl then fl else fl + 1)"

definition round_f64 :: "rat \<Rightarrow> f64" where
  "round_f64 x =
     (if x = 0 then Fin 0
      else
        let a = \<bar>x\<bar>;
            e = ilog2 a;
            q = max (e - 52) (- 1074);
            m = round_half_even (a / pow2 q)
        in if 1024 \<le> e \<or> (q = 971 \<and> m = 2 ^ 53) then (if x < 0 then NegInf else PosInf)
           else if m = 0 then (if x < 0 then NegZero else Fin 0)
           else Fin (if x < 0 then - (of_int m * pow2 q) else of_int m * pow2 q))"

text \<open>
  Division: \<^verbatim>\<open>nan\<close> propagates; \<^verbatim>\<open>inf/inf\<close> and \<^verbatim>\<open>0/0\<close> are \<^verbatim>\<open>nan\<close>;
  an infinity divided by a finite value and a non-zero value divided by a zero are an
  infinity; a zero divided by a non-zero value and a finite value divided by an infinity
  are a zero; the sign of these results is the product of the signs. Otherwise the
  exact quotient is rounded.
\<close>

definition is_zero :: "f64 \<Rightarrow> bool" where
  "is_zero a \<longleftrightarrow> a = Fin 0 \<or> a = NegZero"

definition is_inf :: "f64 \<Rightarrow> bool" where
  "is_inf a \<longleftrightarrow> a = PosInf \<or> a = NegInf"

fun negative :: "f64 \<Rightarrow> bool" where
  "negative (Fin r) = (r < 0)"
| "negative NegZero = True"
| "negative PosInf = False"
| "negative NegInf = True"
| "negative NaN = False"

fun magnitude :: "f64 \<Rightarrow> rat" where
  "magnitude (Fin r) = r"
| "magnitude _ = 0"

definition fdiv :: "f64 \<Rightarrow> f64 \<Rightarrow> f64" where
  "fdiv a b =
     (if a = NaN \<or> b = NaN then NaN
      else if is_inf a \<and> is_inf b then NaN
      else if is_zero a \<and> is_zero b then NaN
      else if is_inf a \<or> is_zero b
        then (if negative a \<noteq> negative b then NegInf else PosInf)
      else if is_zero a \<or> is_inf b
        then (if negative a \<noteq> negative b then NegZero else Fin 0)
      else round_f64 (magnitude a / magnitude b))"

section \<open>The 1/f normalisation of the power array\<close>

text \<open>
  The last computing cell of the notebook:
  \<^verbatim>\<open>
  power_f_corrected = np.zeros_like(power.data)
  for e in range(power.data.shape[0]):
      for f in range(power.data.shape[1]):
          power_f_corrected[e][f] = power.data[e][f] / (1/power.freqs[f])
  power.data = power_f_corrected
  \<close>
  \<open>power.data\<close> is a three-dimensional array (channel, frequency, time) and
  \<open>power.freqs\<close> the frequency axis. The array is a nested list that satisfies
  \<open>is_ndarray3\<close>; \<open>power_f_corrected[e][f] = v\<close> is a list update, and reading
  \<open>power.freqs[f]\<close> past the end of the axis raises \<open>IndexError\<close>. Both divisions
  are double-precision divisions: \<open>1/power.freqs[f]\<close> is \<open>fdiv (Fin 1) (fr ! f)\<close>, and
  the row \<open>power.data[e][f]\<close> is divided by it element by element.
\<close>

record tfr =
  data :: "f64 list list list"
  freqs :: "f64 list"

definition shape0 :: "'a list list list \<Rightarrow> nat" where
  "shape0 d = length d"

definition shape1 :: "'a list list list \<Rightarrow> nat" where
  "shape1 d = (case d of [] \<Rightarrow> 0 | r # _ \<Rightarrow> length r)"

definition shape2 :: "'a list list list \<Rightarrow> nat" where
  "shape2 d = (case d of [] \<Rightarrow> 0 | r # _ \<Rightarrow> (case r of [] \<Rightarrow> 0 | v # _ \<Rightarrow> length v))"

definition is_ndarray3 :: "'a list list list \<Rightarrow> bool" where
  "is_ndarray3 d \<longleftrightarrow>
     (\<forall>r \<in> set d. length r = shape1 d \<and> (\<forall>v \<in> set r. length v = shape2 d))"

definition zeros_like :: "f64 list list list \<Rightarrow> f64 list list list" where
  "zeros_like d = replicate (shape0 d) (replicate (shape1 d) (replicate (shape2 d) (Fin 0)))"

fun f_loop :: "f64 list list list \<Rightarrow> f64 list \<Rightarrow> nat \<Rightarrow> nat list \<Rightarrow>
    f64 list list list \<Rightarrow> error + f64 list list list" where
  "f_loop pd fr e [] pfc = Inr pfc"
| "f_loop pd fr e (f # fs) pfc =
     (if f < length fr
      then f_loop pd fr e fs
             (pfc[e := (pfc ! e)[f := map (\<lambda>x. fdiv x (fdiv (Fin 1) (fr ! f))) (pd ! e ! f)]])
      else Inl IndexError)"

fun e_loop :: "f64 list list list \<Rightarrow> f64 list \<Rightarrow> nat list \<Rightarrow>
    f64 list list list \<Rightarrow> error + f64 list list list" where
  "e_loop pd fr [] pfc = Inr pfc"
| "e_loop pd fr (e # es) pfc =
     (case f_loop pd fr e [0..<shape1 pd] pfc of
        Inl err \<Rightarrow> Inl err
      | Inr pfc' \<Rightarrow> e_loop pd fr es pfc')"

definition power_f_corrected :: "tfr \<Rightarrow> error + tfr" where
  "power_f_corrected pw =
     (case e_loop (data pw) (freqs pw) [0..<shape0 (data pw)]
             (zeros_like (data pw)) of
        Inl err \<Rightarrow> Inl err
      | Inr pfc \<Rightarrow> Inr (pw\<lparr>data := pfc\<rparr>))"

text \<open>The value one assignment of the inner loop writes (an abbreviation for the proofs).\<close>

definition bin_update :: "f64 list list list \<Rightarrow> f64 list \<Rightarrow> nat \<Rightarrow> nat \<Rightarrow> f64 list" where
  "bin_update pd fr e f = map (\<lambda>x. fdiv x (fdiv (Fin 1) (fr ! f))) (pd ! e ! f)"

section \<open>Segmentation\<close>

text \<open>
  Modelled from the spec: \<^verbatim>\<open>create_epochs\<close> is imported from the package
  \<^verbatim>\<open>meeg_tools\<close> (\<^verbatim>\<open>meeg_tools.utils.epochs\<close>); the notebook only calls it, as
  \<^verbatim>\<open>epochs = create_epochs(raw=raw_bandpass)\<close>, without event markers. The spec: epochs
  are fixed-duration, non-overlapping segments, each tagged with its origin sample
  offset; without markers they tile the signal from time zero, discarding a trailing
  partial segment; segmentation fails with InsufficientDataError if the signal is shorter
  than one epoch. The duration is counted in samples. The tiling is a loop that cuts the
  next segment while a whole one is left.
\<close>

record epoch =
  offset :: nat
  segment :: "real list list"

function tile_offsets :: "nat \<Rightarrow> nat \<Rightarrow> nat \<Rightarrow> nat list" where
  "tile_offsets duration stop start =
     (if duration = 0 \<or> stop < start + duration then []
      else start # tile_offsets duration stop (start + duration))"
  by pat_completeness auto
termination
  by (relation "measure (\<lambda>(duration, stop, start). stop - start)") auto

definition cut :: "nat \<Rightarrow> signal \<Rightarrow> nat \<Rightarrow> epoch" where
  "cut duration raw off = \<lparr>offset = off, segment = map (\<lambda>ch. take duration (drop off ch)) raw\<rparr>"

definition create_epochs :: "nat \<Rightarrow> signal \<Rightarrow> error + epoch list" where
  "create_epochs duration raw =
     (if n_times raw < duration then Inl InsufficientDataError
      else Inr (map (cut duration raw) (tile_offsets duration (n_times raw) 0)))"

section \<open>Average reference\<close>

text \<open>
  Modelled from the spec: \<^verbatim>\<open>set_eeg_reference('average')\<close> is a method of the
  \<^verbatim>\<open>mne\<close> epochs object; the notebook only calls it, as
  \<^verbatim>\<open>epochs_ransac.set_eeg_reference('average')\<close>. The spec: recompute every channel's
  signal as its deviation from the across-channel mean at each sample.
\<close>

definition channel_mean :: "signal \<Rightarrow> nat \<Rightarrow> real" where
  "channel_mean chs t = (\<Sum>ch\<leftarrow>chs. ch ! t) / real (length chs)"

definition set_eeg_reference :: "signal \<Rightarrow> signal" where
  "set_eeg_reference chs =
     map (\<lambda>ch. map (\<lambda>t. ch ! t - channel_mean chs t) [0..<length ch]) chs"

section \<open>The tabular log\<close>

text \<open>
  Modelled from the spec: \<^verbatim>\<open>update_log\<close> is imported from the package
  \<^verbatim>\<open>meeg_tools\<close> (\<^verbatim>\<open>meeg_tools.utils.log\<close>); the notebook only calls it, as
  \<^verbatim>\<open>update_log(log_file_path, epochs_faster, notes)\<close>. The spec: the log is a table
  with one row per processed EpochSet and the columns identifier, total epochs,
  epochs-rejected count, components-excluded count, interpolated-channel list and
  free-text notes; logging an identifier that already has a row updates that row, and
  logging a new identifier appends a row.
\<close>

record log_row =
  ident :: string
  total_epochs :: nat
  epochs_rejected :: nat
  components_excluded :: nat
  interpolated_channels :: "string list"
  row_notes :: string

fun update_log :: "log_row list \<Rightarrow> log_row \<Rightarrow> log_row list" where
  "update_log [] row = [row]"
| "update_log (r # rs) row =
     (if ident r = ident row then row # rs else r # update_log rs row)"

section \<open>The notebook as a program\<close>

text \<open>
  The code cells of the notebook run top to bottom on one Python session. The session is
  the record \<open>nb_state\<close>: the \<^verbatim>\<open>settings\<close> dictionary imported from
  \<^verbatim>\<open>meeg_tools\<close>, the notebook's variables, the epoch files saved so far and the log
  file. Epochs objects are mutable and several variables may name one object, so the
  objects live in a store \<open>heap\<close> and a variable holds an index into it;
  \<^verbatim>\<open>.copy()\<close> appends a new object, an in-place method overwrites the object at its
  index. A variable that is not yet bound is \<open>None\<close>, and reading it raises
  \<open>NameError\<close>.

  A settings value is a number, a string or \<^verbatim>\<open>None\<close>; the dictionary is nested
  (\<^verbatim>\<open>settings['ransac']['threshold']\<close>).
\<close>

datatype pyval = Num real | Str string | NoneVal

type_synonym settings_dict = "string \<rightharpoonup> (string \<rightharpoonup> pyval)"

text \<open>
  An epochs object, as far as the notebook reads or writes it: the data array (epoch,
  channel, sample), the indices of the surviving epochs in the original segmentation
  (\<^verbatim>\<open>selection\<close>), the drop log with one entry of reasons per original epoch, and
  the fields \<^verbatim>\<open>description\<close>, \<^verbatim>\<open>fid\<close> and \<^verbatim>\<open>bads\<close> of its
  \<^verbatim>\<open>info\<close>. The description is \<^verbatim>\<open>None\<close> until something is written to it.
\<close>

record epochs_obj =
  epo_data :: "real list list list"
  selection :: "nat list"
  drop_log :: "string list list"
  description :: "string option"
  fid :: string
  bads :: "string list"

text \<open>
  The reject log returned by \<^verbatim>\<open>run_autoreject\<close>: \<open>labels ! e ! ch\<close> says whether
  channel \<open>ch\<close> of epoch \<open>e\<close> was classified bad by the learned per-channel thresholds,
  \<^verbatim>\<open>bad_epochs\<close> is the mask of the epochs marked bad as a whole, and
  \<^verbatim>\<open>report\<close> is the list of epoch indices the strict policy drops.
\<close>

record reject_log_obj =
  labels :: "bool list list"
  bad_epochs :: "bool list"
  report :: "nat list"

text \<open>
  The procedures the notebook imports from \<^verbatim>\<open>meeg_tools\<close> and \<^verbatim>\<open>mne\<close>, and
  the person at the interactive figures, are parameters of the model, collected in
  \<open>collab\<close>: filtering, segmentation, channel picking, preliminary rejection, the ICA
  fit, the reviewer's component selection in \<^verbatim>\<open>ica.plot_sources\<close>, the reviewer's
  marks in an epochs plot (the channels flagged bad when the figure is closed, and the
  positions of the epochs marked for dropping), the ICA reconstruction, logging,
  autoreject, RANSAC, interpolation and re-referencing. What the notebook itself does
  with their results (which variable is bound, which object is copied or overwritten,
  what is written to \<^verbatim>\<open>info\<close>) is in \<open>exec\<close>.
\<close>

record collab =
  ext_filter_raw :: "settings_dict \<Rightarrow> signal \<Rightarrow> error + signal"
  ext_create_epochs :: "settings_dict \<Rightarrow> signal \<Rightarrow> error + epochs_obj"
  ext_pick_channels :: "string list \<Rightarrow> epochs_obj \<Rightarrow> error + epochs_obj"
  ext_prepare_epochs_for_ica :: "settings_dict \<Rightarrow> epochs_obj \<Rightarrow> error + epochs_obj"
  ext_run_ica :: "settings_dict \<Rightarrow> epochs_obj \<Rightarrow> error + nat list"
  ext_plot_sources :: "nat list \<Rightarrow> epochs_obj \<Rightarrow> nat list"
  ext_plot_epochs :: "epochs_obj \<Rightarrow> string list \<times> nat list"
  ext_ica_apply :: "nat list \<Rightarrow> epochs_obj \<Rightarrow> error + real list list list"
  ext_update_log :: "string list \<Rightarrow> epochs_obj \<Rightarrow> string \<Rightarrow> error + string list"
  ext_run_autoreject :: "settings_dict \<Rightarrow> epochs_obj \<Rightarrow> error + reject_log_obj"
  ext_run_ransac :: "settings_dict \<Rightarrow> epochs_obj \<Rightarrow> error + string list"
  ext_interpolate_bads :: "epochs_obj \<Rightarrow> error + real list list list"
  ext_set_eeg_reference :: "epochs_obj \<Rightarrow> error + real list list list"

record nb_state =
  settings :: settings_dict
  heap :: "epochs_obj list"
  raw :: "signal option"
  raw_bandpass :: "signal option"
  epochs :: "nat option"
  epochs_faster :: "nat option"
  ica :: "nat list option"
  reject_log :: "reject_log_obj option"
  epochs_autoreject :: "nat option"
  ransac :: "string list option"
  epochs_ransac :: "nat option"
  files :: "(string \<times> epochs_obj) list"
  log_file :: "string list"

text \<open>
  The two drop policies of the autoreject cell. The notebook has both lines and leaves
  the strict one active:
  \<^verbatim>\<open>
  # epochs_autoreject = epochs_faster.copy().drop(reject_log.bad_epochs, reason='AUTOREJECT')
  epochs_autoreject = epochs_faster.copy().drop(reject_log.report, reason='AUTOREJECT')
  \<close>
\<close>

datatype policy = Lenient | Strict

text \<open>
  The code cells that change the session, in the order of the notebook. The values a
  user edits in the three settings cells are arguments of the cell. \<open>PlotFaster\<close>,
  \<open>PlotAutoreject\<close> and \<open>PlotRansac\<close> are the interactive cells
  \<^verbatim>\<open>epochs_faster.plot(...)\<close>, \<^verbatim>\<open>epochs_autoreject.plot(...)\<close> and
  \<^verbatim>\<open>epochs_ransac.plot(...)\<close>.
\<close>

datatype cell =
    SetBandpass real real
  | FilterRaw
  | CreateEpochs
  | PickChannels
  | PrepareEpochs
  | SetIcaComponents real
  | RunIca
  | PlotSources
  | ApplyIca
  | PlotFaster
  | SaveIca
  | LogIca
  | RunAutoreject
  | DropAutoreject policy
  | PlotAutoreject
  | SaveAutoreject
  | LogAutoreject
  | SetRansacThreshold real
  | RunRansac
  | InterpolateRansac
  | PlotRansac
  | SetReference
  | SaveRansac
  | LogRansac

definition ch_names :: "string list" where
  "ch_names = [''Fp1'', ''Fp2'', ''F7'', ''F3'', ''Fz'',
               ''F4'', ''F8'', ''T7'', ''C3'', ''Cz'',
               ''C4'', ''T8'', ''P7'', ''P3'', ''Pz'',
               ''P4'', ''P8'', ''O1'', ''Oz'', ''O2'']"

definition postfix :: string where
  "postfix = ''-epo.fif.gz''"

text \<open>Python's \<^verbatim>\<open>str\<close> of a non-negative integer and \<^verbatim>\<open>sep.join(xs)\<close>.\<close>

function str_nat :: "nat \<Rightarrow> string" where
  "str_nat n = (if n < 10 then [''0123456789'' ! n]
                else str_nat (n div 10) @ [''0123456789'' ! (n mod 10)])"
  by pat_completeness auto
termination
  by (relation "measure id") auto

fun join :: "string \<Rightarrow> string list \<Rightarrow> string" where
  "join sep [] = []"
| "join sep [x] = x"
| "join sep (x # y # ys) = x @ sep @ join sep (y # ys)"

text \<open>
  \<^verbatim>\<open>settings[section][key] = v\<close>: a plain dictionary assignment; it raises
  \<open>KeyError\<close> when the section is missing and looks at nothing else.
\<close>

definition set_setting :: "string \<Rightarrow> string \<Rightarrow> pyval \<Rightarrow> nb_state \<Rightarrow> error + nb_state" where
  "set_setting section key v s =
     (case settings s section of
        None \<Rightarrow> Inl KeyError
      | Some d \<Rightarrow> Inr (s\<lparr>settings := (settings s)(section \<mapsto> d(key \<mapsto> v))\<rparr>))"

definition deref :: "nb_state \<Rightarrow> nat option \<Rightarrow> error + (nat \<times> epochs_obj)" where
  "deref s v =
     (case v of
        None \<Rightarrow> Inl NameError
      | Some r \<Rightarrow> (if r < length (heap s) then Inr (r, heap s ! r) else Inl NameError))"

definition alloc :: "epochs_obj \<Rightarrow> nb_state \<Rightarrow> nat \<times> nb_state" where
  "alloc obj s = (length (heap s), s\<lparr>heap := heap s @ [obj]\<rparr>)"

definition store :: "nat \<Rightarrow> epochs_obj \<Rightarrow> nb_state \<Rightarrow> nb_state" where
  "store r obj s = s\<lparr>heap := (heap s)[r := obj]\<rparr>"

text \<open>
  \<^verbatim>\<open>Epochs.drop(indices, reason)\<close> as \<^verbatim>\<open>mne\<close> documents it: an index past the
  last epoch raises \<open>IndexError\<close>; otherwise the epochs at the given positions are
  removed from the data and from \<^verbatim>\<open>selection\<close>, and the drop log entry of each
  removed epoch becomes the reason. A boolean mask is first turned into the positions
  that are true.
\<close>

definition where_true :: "bool list \<Rightarrow> nat list" where
  "where_true flags = filter (\<lambda>i. flags ! i) [0..<length flags]"

definition drop_epochs :: "nat list \<Rightarrow> string \<Rightarrow> epochs_obj \<Rightarrow> error + epochs_obj" where
  "drop_epochs indices reason obj =
     (if \<exists>i \<in> set indices. length (selection obj) \<le> i then Inl IndexError
      else
        let keep = filter (\<lambda>i. i \<notin> set indices) [0..<length (selection obj)]
        in Inr (obj\<lparr>epo_data := map (\<lambda>i. epo_data obj ! i) keep,
                     selection := map (\<lambda>i. selection obj ! i) keep,
                     drop_log := fold (\<lambda>i dl. dl[selection obj ! i := [reason]]) indices
                                   (drop_log obj)\<rparr>))"

definition drop_indices :: "policy \<Rightarrow> reject_log_obj \<Rightarrow> nat list" where
  "drop_indices p rl = (case p of Lenient \<Rightarrow> where_true (bad_epochs rl) | Strict \<Rightarrow> report rl)"

text \<open>
  The three saving cells have one shape:
  \<^verbatim>\<open>
  fid = epochs.info['fid']
  epochs_faster.info.update(fid=f'{fid}_ICA')
  postfix = '-epo.fif.gz'
  epochs_faster.save(os.path.join(epochs_path, f'{epochs_faster.info["fid"]}{postfix}'), overwrite=True)
  \<close>
\<close>

definition save_epochs :: "string \<Rightarrow> nat option \<Rightarrow> nb_state \<Rightarrow> error + nb_state" where
  "save_epochs suffix v s =
     (case deref s (epochs s) of
        Inl e \<Rightarrow> Inl e
      | Inr (r0, obj0) \<Rightarrow>
          (case deref s v of
             Inl e \<Rightarrow> Inl e
           | Inr (r, obj) \<Rightarrow>
               let obj' = obj\<lparr>fid := fid obj0 @ suffix\<rparr>
               in Inr ((store r obj' s)\<lparr>files := (fid obj' @ postfix, obj') # files s\<rparr>)))"

text \<open>
  An epochs plot, for instance the final visual inspection
  \<^verbatim>\<open>
  epochs_ransac.plot(n_epochs=10, n_channels=32, scalings={'eeg': 20e-6})
  \<close>
  under the notebook's heading "Mark epochs that should be dropped, select electrodes
  that should be interpolated etc.". The figure is interactive: when it is closed, the
  channels the reviewer has selected are the object's \<^verbatim>\<open>info['bads']\<close> and the
  epochs the reviewer has marked are dropped from the object with the reason
  \<^verbatim>\<open>USER\<close>, both in place. A reviewer who touches nothing returns the bads the
  object had and no epoch.
\<close>

definition plot_epochs :: "collab \<Rightarrow> nat option \<Rightarrow> nb_state \<Rightarrow> error + nb_state" where
  "plot_epochs c v s =
     (case deref s v of
        Inl e \<Rightarrow> Inl e
      | Inr (r, obj) \<Rightarrow>
          (case ext_plot_epochs c obj of
             (marked, idx) \<Rightarrow>
               (case drop_epochs idx ''USER'' (obj\<lparr>bads := marked\<rparr>) of
                  Inl e \<Rightarrow> Inl e
                | Inr obj' \<Rightarrow> Inr (store r obj' s))))"

text \<open>
  The three logging cells are \<^verbatim>\<open>update_log(log_file_path, epochs_faster, notes)\<close>
  with \<^verbatim>\<open>notes = ''\<close>, and the same for the other two variables.
\<close>

definition write_log :: "collab \<Rightarrow> nat option \<Rightarrow> nb_state \<Rightarrow> error + nb_state" where
  "write_log c v s =
     (case deref s v of
        Inl e \<Rightarrow> Inl e
      | Inr (r, obj) \<Rightarrow>
          (case ext_update_log c (log_file s) obj [] of
             Inl e \<Rightarrow> Inl e
           | Inr lg \<Rightarrow> Inr (s\<lparr>log_file := lg\<rparr>)))"

text \<open>
  One cell. The cells that matter most below:
  \<^verbatim>\<open>
  ica.apply(epochs_faster.load_data())
  epochs_faster.info['description'] = f'n_components: {len(ica.exclude)}'
  \<close>
  (\<open>ApplyIca\<close>: both statements act on the object \<^verbatim>\<open>epochs_faster\<close> names),
  \<^verbatim>\<open>
  epochs_ransac = epochs_autoreject.copy()
  epochs_ransac.info['bads'] = ransac.bad_chs_
  bads_str = ', '.join(ransac.bad_chs_)
  epochs_ransac.info.update(description=epochs_ransac.info['description'] + ', interpolated: ' + bads_str)
  epochs_ransac.interpolate_bads(reset_bads=True)
  \<close>
  (\<open>InterpolateRansac\<close>: concatenating to a description that is \<^verbatim>\<open>None\<close> raises
  \<open>TypeError\<close>; \<^verbatim>\<open>reset_bads=True\<close> empties \<^verbatim>\<open>info['bads']\<close> once the
  channels are interpolated), and
  \<^verbatim>\<open>epochs_ransac.set_eeg_reference('average')\<close> (\<open>SetReference\<close>, in place). The
  plot of \<^verbatim>\<open>epochs_faster\<close> reads \<^verbatim>\<open>raw.info['fid']\<close> for its title.
\<close>

fun exec :: "collab \<Rightarrow> cell \<Rightarrow> nb_state \<Rightarrow> error + nb_state" where
  "exec c (SetBandpass low high) s =
     (case set_setting ''bandpass_filter'' ''low_freq'' (Num low) s of
        Inl e \<Rightarrow> Inl e
      | Inr s1 \<Rightarrow> set_setting ''bandpass_filter'' ''high_freq'' (Num high) s1)"
| "exec c FilterRaw s =
     (case raw s of
        None \<Rightarrow> Inl NameError
      | Some x \<Rightarrow>
          (case ext_filter_raw c (settings s) x of
             Inl e \<Rightarrow> Inl e
           | Inr y \<Rightarrow> Inr (s\<lparr>raw_bandpass := Some y\<rparr>)))"
| "exec c CreateEpochs s =
     (case raw_bandpass s of
        None \<Rightarrow> Inl NameError
      | Some x \<Rightarrow>
          (case ext_create_epochs c (settings s) x of
             Inl e \<Rightarrow> Inl e
           | Inr obj \<Rightarrow> (case alloc obj s of (r, s1) \<Rightarrow> Inr (s1\<lparr>epochs := Some r\<rparr>))))"
| "exec c PickChannels s =
     (case deref s (epochs s) of
        Inl e \<Rightarrow> Inl e
      | Inr (r0, obj0) \<Rightarrow>
          (case alloc obj0 s of
             (r, s1) \<Rightarrow>
               (case ext_pick_channels c ch_names obj0 of
                  Inl e \<Rightarrow> Inl e
                | Inr obj \<Rightarrow> Inr ((store r obj s1)\<lparr>epochs := Some r\<rparr>))))"
| "exec c PrepareEpochs s =
     (case deref s (epochs s) of
        Inl e \<Rightarrow> Inl e
      | Inr (r0, obj0) \<Rightarrow>
          (case ext_prepare_epochs_for_ica c (settings s) obj0 of
             Inl e \<Rightarrow> Inl e
           | Inr obj \<Rightarrow> (case alloc obj s of (r, s1) \<Rightarrow> Inr (s1\<lparr>epochs_faster := Some r\<rparr>))))"
| "exec c (SetIcaComponents n) s = set_setting ''ica'' ''n_components'' (Num n) s"
| "exec c RunIca s =
     (case deref s (epochs_faster s) of
        Inl e \<Rightarrow> Inl e
      | Inr (r, obj) \<Rightarrow>
          (case ext_run_ica c (settings s) obj of
             Inl e \<Rightarrow> Inl e
           | Inr excl \<Rightarrow> Inr (s\<lparr>ica := Some excl\<rparr>)))"
| "exec c PlotSources s =
     (case ica s of
        None \<Rightarrow> Inl NameError
      | Some excl \<Rightarrow>
          (case deref s (epochs_faster s) of
             Inl e \<Rightarrow> Inl e
           | Inr (r, obj) \<Rightarrow> Inr (s\<lparr>ica := Some (ext_plot_sources c excl obj)\<rparr>)))"
| "exec c ApplyIca s =
     (case ica s of
        None \<Rightarrow> Inl NameError
      | Some excl \<Rightarrow>
          (case deref s (epochs_faster s) of
             Inl e \<Rightarrow> Inl e
           | Inr (r, obj) \<Rightarrow>
               (case ext_ica_apply c excl obj of
                  Inl e \<Rightarrow> Inl e
                | Inr d \<Rightarrow>
                    Inr (store r (obj\<lparr>epo_data := d,
                           description := Some (''n_components: '' @ str_nat (length excl))\<rparr>) s))))"
| "exec c PlotFaster s =
     (case raw s of
        None \<Rightarrow> Inl NameError
      | Some x \<Rightarrow> plot_epochs c (epochs_faster s) s)"
| "exec c SaveIca s = save_epochs ''_ICA'' (epochs_faster s) s"
| "exec c LogIca s = write_log c (epochs_faster s) s"
| "exec c RunAutoreject s =
     (case deref s (epochs_faster s) of
        Inl e \<Rightarrow> Inl e
      | Inr (r, obj) \<Rightarrow>
          (case ext_run_autoreject c (settings s) obj of
             Inl e \<Rightarrow> Inl e
           | Inr rl \<Rightarrow> Inr (s\<lparr>reject_log := Some rl\<rparr>)))"
| "exec c (DropAutoreject p) s =
     (case deref s (epochs_faster s) of
        Inl e \<Rightarrow> Inl e
      | Inr (r0, obj0) \<Rightarrow>
          (case alloc obj0 s of
             (r, s1) \<Rightarrow>
               (case reject_log s of
                  None \<Rightarrow> Inl NameError
                | Some rl \<Rightarrow>
                    (case drop_epochs (drop_indices p rl) ''AUTOREJECT'' obj0 of
                       Inl e \<Rightarrow> Inl e
                     | Inr obj \<Rightarrow> Inr ((store r obj s1)\<lparr>epochs_autoreject := Some r\<rparr>)))))"
| "exec c PlotAutoreject s = plot_epochs c (epochs_autoreject s) s"
| "exec c SaveAutoreject s = save_epochs ''_ICA_autoreject'' (epochs_autoreject s) s"
| "exec c LogAutoreject s = write_log c (epochs_autoreject s) s"
| "exec c (SetRansacThreshold v) s = set_setting ''ransac'' ''threshold'' (Num v) s"
| "exec c RunRansac s =
     (case deref s (epochs_autoreject s) of
        Inl e \<Rightarrow> Inl e
      | Inr (r, obj) \<Rightarrow>
          (case ext_run_ransac c (settings s) obj of
             Inl e \<Rightarrow> Inl e
           | Inr chs \<Rightarrow> Inr (s\<lparr>ransac := Some chs\<rparr>)))"
| "exec c InterpolateRansac s =
     (case deref s (epochs_autoreject s) of
        Inl e \<Rightarrow> Inl e
      | Inr (r0, obj0) \<Rightarrow>
          (case alloc obj0 s of
             (r, s1) \<Rightarrow>
               (case ransac s of
                  None \<Rightarrow> Inl NameError
                | Some bad_chs \<Rightarrow>
                    let obj1 = obj0\<lparr>bads := bad_chs\<rparr>
                    in (case description obj1 of
                          None \<Rightarrow> Inl TypeError
                        | Some d \<Rightarrow>
                            let obj2 = obj1\<lparr>description :=
                                  Some (d @ '', interpolated: '' @ join '', '' bad_chs)\<rparr>
                            in (case ext_interpolate_bads c obj2 of
                                  Inl e \<Rightarrow> Inl e
                                | Inr d' \<Rightarrow>
                                    Inr ((store r (obj2\<lparr>epo_data := d', bads := []\<rparr>) s1)
                                           \<lparr>epochs_ransac := Some r\<rparr>))))))"
| "exec c PlotRansac s = plot_epochs c (epochs_ransac s) s"
| "exec c SetReference s =
     (case deref s (epochs_ransac s) of
        Inl e \<Rightarrow> Inl e
      | Inr (r, obj) \<Rightarrow>
          (case ext_set_eeg_reference c obj of
             Inl e \<Rightarrow> Inl e
           | Inr d \<Rightarrow> Inr (store r (obj\<lparr>epo_data := d\<rparr>) s)))"
| "exec c SaveRansac s = save_epochs ''_ICA_autoreject_ransac'' (epochs_ransac s) s"
| "exec c LogRansac s = write_log c (epochs_ransac s) s"

fun run :: "collab \<Rightarrow> cell list \<Rightarrow> nb_state \<Rightarrow> error + nb_state" where
  "run c [] s = Inr s"
| "run c (x # xs) s = (case exec c x s of Inl e \<Rightarrow> Inl e | Inr s' \<Rightarrow> run c xs s')"

text \<open>
  The notebook, with the four values its settings cells assign, and the notebook as it
  is written (\<^verbatim>\<open>low_freq = 1\<close>, \<^verbatim>\<open>high_freq = 30\<close>, \<^verbatim>\<open>n_components = 20\<close>,
  \<^verbatim>\<open>threshold = 0.05\<close>). \<^verbatim>\<open>epochs_autoreject.plot(...)\<close> occurs twice, after the
  autoreject drop and after \<^verbatim>\<open>run_ransac\<close>. The cells that only show something are
  left out: \<^verbatim>\<open>print(raw.info)\<close>, \<^verbatim>\<open>settings['epochs']\<close>,
  \<^verbatim>\<open>ica.plot_components()\<close>, \<^verbatim>\<open>epochs_ransac.info\<close> and
  \<^verbatim>\<open>epochs_ransac.plot_drop_log()\<close>; so is \<^verbatim>\<open>raw_bandpass.plot(...)\<close>, whose marks
  reach the epochs only through \<^verbatim>\<open>create_epochs\<close>, a parameter, and the cells from
  \<^verbatim>\<open>epochs_ransac.plot_psd()\<close> on, which come after the last stage.
\<close>

definition notebook_with :: "real \<Rightarrow> real \<Rightarrow> real \<Rightarrow> real \<Rightarrow> cell list" where
  "notebook_with low high n_components threshold =
     [SetBandpass low high, FilterRaw, CreateEpochs, PickChannels,
      PrepareEpochs, SetIcaComponents n_components, RunIca, PlotSources, ApplyIca,
      PlotFaster, SaveIca, LogIca,
      RunAutoreject, DropAutoreject Strict, PlotAutoreject, SaveAutoreject, LogAutoreject,
      SetRansacThreshold threshold, RunRansac, PlotAutoreject, InterpolateRansac,
      PlotRansac, SetReference, SaveRansac, LogRansac]"

definition notebook :: "cell list" where
  "notebook = notebook_with 1 30 20 (5 / 100)"

definition cells_before :: "cell \<Rightarrow> cell list \<Rightarrow> cell list" where
  "cells_before x cs = takeWhile (\<lambda>y. y \<noteq> x) cs"

definition cells_through :: "cell \<Rightarrow> cell list \<Rightarrow> cell list" where
  "cells_through x cs = cells_before x cs @ [x]"

text \<open>The session after the recording is loaded: only \<^verbatim>\<open>settings\<close> and
  \<^verbatim>\<open>raw\<close> are bound.\<close>

definition init_state :: "settings_dict \<Rightarrow> signal \<Rightarrow> nb_state" where
  "init_state st x =
     \<lparr>settings = st, heap = [], raw = Some x, raw_bandpass = None, epochs = None,
      epochs_faster = None, ica = None, reject_log = None, epochs_autoreject = None,
      ransac = None, epochs_ransac = None, files = [], log_file = []\<rparr>"

text \<open>
  Observations of a run: the object a variable names, the value of a variable, and a
  settings entry, each \<open>None\<close> when the run raised.
\<close>

definition obj_of :: "error + nb_state \<Rightarrow> (nb_state \<Rightarrow> nat option) \<Rightarrow> epochs_obj option" where
  "obj_of res var =
     (case res of
        Inl e \<Rightarrow> None
      | Inr s \<Rightarrow> (case deref s (var s) of Inl e \<Rightarrow> None | Inr (r, obj) \<Rightarrow> Some obj))"

definition ref_of :: "error + nb_state \<Rightarrow> (nb_state \<Rightarrow> 'a option) \<Rightarrow> 'a option" where
  "ref_of res var = (case res of Inl e \<Rightarrow> None | Inr s \<Rightarrow> var s)"

definition setting_of :: "error + nb_state \<Rightarrow> string \<Rightarrow> string \<Rightarrow> pyval option" where
  "setting_of res section key =
     (case res of
        Inl e \<Rightarrow> None
      | Inr s \<Rightarrow> (case settings s section of None \<Rightarrow> None | Some d \<Rightarrow> d key))"

text \<open>
  Modelled from the spec: the list \<^verbatim>\<open>reject_log.report\<close> is computed inside
  \<^verbatim>\<open>run_autoreject\<close> of the package \<^verbatim>\<open>meeg_tools\<close>, which the notebook only
  calls. The spec: the strict policy drops any epoch where the fraction of bad channels
  exceeds a configurable threshold (default 0.15).
\<close>

definition bad_fraction :: "bool list \<Rightarrow> real" where
  "bad_fraction row = real (length (filter (\<lambda>b. b) row)) / real (length row)"

definition strict_report :: "real \<Rightarrow> bool list list \<Rightarrow> nat list" where
  "strict_report threshold lab =
     filter (\<lambda>i. threshold < bad_fraction (lab ! i)) [0..<length lab]"

text \<open>
  A small session on which the notebook can be run: a two-channel recording, default
  settings, and collaborators that cut three epochs, reject the last one, flag one
  component (the reviewer adds one more at each inspection), halve the data on
  reconstruction, and report the second remaining epoch and the channel Fp1. In
  \<open>demo_collab\<close> the reviewer marks nothing in the epochs plots; in \<open>demo_marking\<close>
  the reviewer selects the channel Fz in the final visual inspection.
\<close>

definition demo_settings :: settings_dict where
  "demo_settings =
     [''bandpass_filter'' \<mapsto> [''low_freq'' \<mapsto> Num (1 / 2), ''high_freq'' \<mapsto> Num 45],
      ''ica'' \<mapsto> [''n_components'' \<mapsto> Num 32],
      ''ransac'' \<mapsto> [''threshold'' \<mapsto> Num (1 / 10)]]"

definition demo_collab :: collab where
  "demo_collab =
     \<lparr>ext_filter_raw = (\<lambda>st x. Inr x),
      ext_create_epochs = (\<lambda>st x. Inr \<lparr>epo_data = [x, x, x], selection = [0, 1, 2],
         drop_log = [[], [], []], description = None, fid = ''s01'', bads = []\<rparr>),
      ext_pick_channels = (\<lambda>names obj. Inr obj),
      ext_prepare_epochs_for_ica = (\<lambda>st obj. drop_epochs [2] ''FASTER'' obj),
      ext_run_ica = (\<lambda>st obj. Inr [0]),
      ext_plot_sources = (\<lambda>excl obj. excl @ [length excl]),
      ext_plot_epochs = (\<lambda>obj. (bads obj, [])),
      ext_ica_apply = (\<lambda>excl obj. Inr (map (map (map (\<lambda>v. v / 2))) (epo_data obj))),
      ext_update_log = (\<lambda>lg obj nt. Inr (lg @ [fid obj])),
      ext_run_autoreject = (\<lambda>st obj. Inr \<lparr>labels = [[False, False], [True, False]],
         bad_epochs = [False, True], report = [1]\<rparr>),
      ext_run_ransac = (\<lambda>st obj. Inr [''Fp1'']),
      ext_interpolate_bads = (\<lambda>obj. Inr (epo_data obj)),
      ext_set_eeg_reference = (\<lambda>obj. Inr (epo_data obj))\<rparr>"

definition demo_marking :: collab where
  "demo_marking =
     demo_collab\<lparr>ext_plot_epochs :=
       (\<lambda>obj. (if description obj = Some ''n_components: 2, interpolated: Fp1''
                  then [''Fz''] else bads obj, []))\<rparr>"

definition demo_init :: nb_state where
  "demo_init = init_state demo_settings [[2, 4], [6, 8]]"

section \<open>Properties of the 1/f normalisation\<close>

lemma f_loop_Inr:
  "\<forall>f \<in> set fs. f < length fr \<Longrightarrow>
   f_loop pd fr e fs pfc =
     Inr (fold (\<lambda>f q. q[e := (q ! e)[f := map (\<lambda>x. fdiv x (fdiv (Fin 1) (fr ! f))) (pd ! e ! f)]]) fs pfc)"
  by (induction fs arbitrary: pfc) auto

lemma fold_row_length:
  "length (fold (\<lambda>f q. q[e := (q ! e)[f := g f]]) fs pfc) = length pfc"
  by (induction fs arbitrary: pfc) auto

lemma fold_row_other:
  "e' \<noteq> e \<Longrightarrow> fold (\<lambda>f q. q[e := (q ! e)[f := g f]]) fs pfc ! e' = pfc ! e'"
  by (induction fs arbitrary: pfc) auto

lemma fold_row_same:
  "e < length pfc \<Longrightarrow>
   fold (\<lambda>f q. q[e := (q ! e)[f := g f]]) fs pfc ! e = fold (\<lambda>f r. r[f := g f]) fs (pfc ! e)"
  by (induction fs arbitrary: pfc) auto

lemma fold_upd_length: "length (fold (\<lambda>f r. r[f := g f]) fs r) = length r"
  by (induction fs arbitrary: r) auto

lemma fold_upd_nth:
  "f < length r \<Longrightarrow>
   fold (\<lambda>f r. r[f := g f]) fs r ! f = (if f \<in> set fs then g f else r ! f)"
proof (induction fs arbitrary: r rule: rev_induct)
  case Nil
  then show ?case by simp
next
  case (snoc a fs)
  then show ?case by (cases "a = f") (auto simp: fold_upd_length)
qed

lemma f_loop_fold:
  "\<forall>f \<in> set fs. f < length fr \<Longrightarrow>
   f_loop pd fr e fs pfc = Inr (fold (\<lambda>f q. q[e := (q ! e)[f := bin_update pd fr e f]]) fs pfc)"
  unfolding bin_update_def by (rule f_loop_Inr)

lemma e_loop_fold:
  "shape1 pd \<le> length fr \<Longrightarrow>
   e_loop pd fr es pfc =
     Inr (fold (\<lambda>e. fold (\<lambda>f q. q[e := (q ! e)[f := bin_update pd fr e f]]) [0..<shape1 pd]) es pfc)"
  by (induction es arbitrary: pfc) (simp_all add: f_loop_fold)

lemma outer_fold_length:
  "length (fold (\<lambda>e. fold (\<lambda>f q. q[e := (q ! e)[f := g e f]]) fs) es pfc) = length pfc"
  by (induction es arbitrary: pfc) (simp_all add: fold_row_length)

lemma outer_fold_nth:
  "e < length pfc \<Longrightarrow> distinct es \<Longrightarrow>
   fold (\<lambda>e. fold (\<lambda>f q. q[e := (q ! e)[f := g e f]]) fs) es pfc ! e =
     (if e \<in> set es then fold (\<lambda>f r. r[f := g e f]) fs (pfc ! e) else pfc ! e)"
proof (induction es arbitrary: pfc)
  case Nil
  then show ?case by simp
next
  case (Cons a es)
  show ?case
  proof (cases "a = e")
    case True
    with Cons show ?thesis by (simp add: fold_row_length fold_row_same)
  next
    case False
    with Cons show ?thesis by (simp add: fold_row_length fold_row_other)
  qed
qed

lemma ndarray3_row: "is_ndarray3 d \<Longrightarrow> e < length d \<Longrightarrow> length (d ! e) = shape1 d"
  by (simp add: is_ndarray3_def)

lemma ndarray3_bin:
  "is_ndarray3 d \<Longrightarrow> e < length d \<Longrightarrow> f < shape1 d \<Longrightarrow> length (d ! e ! f) = shape2 d"
  by (metis is_ndarray3_def nth_mem)

lemma e_loop_result:
  assumes le: "shape1 pd \<le> length fr"
  shows "\<exists>pfc. e_loop pd fr [0..<shape0 pd] (zeros_like pd) = Inr pfc \<and>
           length pfc = shape0 pd \<and>
           (\<forall>e < shape0 pd. length (pfc ! e) = shape1 pd \<and>
              (\<forall>f < shape1 pd. pfc ! e ! f = bin_update pd fr e f))"
proof -
  let ?R = "fold (\<lambda>e. fold (\<lambda>f q. q[e := (q ! e)[f := bin_update pd fr e f]]) [0..<shape1 pd])
              [0..<shape0 pd] (zeros_like pd)"
  have run: "e_loop pd fr [0..<shape0 pd] (zeros_like pd) = Inr ?R"
    using le by (rule e_loop_fold)
  have len: "length ?R = shape0 pd"
    by (simp add: outer_fold_length zeros_like_def)
  have cell: "length (?R ! e) = shape1 pd \<and> (\<forall>f < shape1 pd. ?R ! e ! f = bin_update pd fr e f)"
    if e: "e < shape0 pd" for e
  proof -
    have ez: "e < length (zeros_like pd)" using e by (simp add: zeros_like_def)
    have zrow: "length (zeros_like pd ! e) = shape1 pd"
      using e by (simp add: zeros_like_def)
    have row: "?R ! e =
        fold (\<lambda>f r. r[f := bin_update pd fr e f]) [0..<shape1 pd] (zeros_like pd ! e)"
      using outer_fold_nth [OF ez, of "[0..<shape0 pd]"] e by simp
    show ?thesis by (simp add: row fold_upd_length fold_upd_nth zrow)
  qed
  from run len cell show ?thesis by blast
qed

text \<open>
  Claim C10, as the code has it. The 1/f normalisation returns a power object whose
  frequency axis is the one it was given and whose array has the shape of the original
  array; every entry at indices \<open>e\<close>, \<open>f\<close>, \<open>t\<close> is the double-precision quotient of
  the original entry by the double-precision quotient \<open>1 / freqs ! f\<close>. The array is
  rectangular and the frequency axis has an entry for every frequency bin, as for every
  power object the time-frequency transform returns.
\<close>

theorem power_f_corrected_entries:
  assumes arr: "is_ndarray3 (data pw)" and fr: "shape1 (data pw) \<le> length (freqs pw)"
  shows "\<exists>pw'. power_f_corrected pw = Inr pw' \<and> freqs pw' = freqs pw \<and>
           length (data pw') = length (data pw) \<and>
           (\<forall>e < shape0 (data pw). length (data pw' ! e) = length (data pw ! e) \<and>
              (\<forall>f < shape1 (data pw).
                 length (data pw' ! e ! f) = length (data pw ! e ! f) \<and>
                 (\<forall>t < shape2 (data pw).
                    data pw' ! e ! f ! t =
                      fdiv (data pw ! e ! f ! t) (fdiv (Fin 1) (freqs pw ! f)))))"
proof -
  let ?pd = "data pw" and ?fr = "freqs pw"
  have le: "shape1 ?pd \<le> length ?fr" using fr .
  from e_loop_result [OF le] obtain pfc where
    run: "e_loop ?pd ?fr [0..<shape0 ?pd] (zeros_like ?pd) = Inr pfc" and
    len: "length pfc = shape0 ?pd" and
    row: "\<And>e. e < shape0 ?pd \<Longrightarrow> length (pfc ! e) = shape1 ?pd" and
    cell: "\<And>e f. e < shape0 ?pd \<Longrightarrow> f < shape1 ?pd \<Longrightarrow> pfc ! e ! f = bin_update ?pd ?fr e f"
    by blast
  have rowlen: "length (pfc ! e) = length (?pd ! e)" if e: "e < shape0 ?pd" for e
    using row [OF e] arr e by (simp add: ndarray3_row shape0_def)
  have val: "length (pfc ! e ! f) = length (?pd ! e ! f) \<and>
      (\<forall>t < shape2 ?pd. pfc ! e ! f ! t = fdiv (?pd ! e ! f ! t) (fdiv (Fin 1) (?fr ! f)))"
    if e: "e < shape0 ?pd" and f: "f < shape1 ?pd" for e f
  proof -
    have "length (?pd ! e ! f) = shape2 ?pd"
      using arr e f by (simp add: ndarray3_bin shape0_def)
    then show ?thesis using cell [OF e f] by (simp add: bin_update_def)
  qed
  have "power_f_corrected pw = Inr (pw\<lparr>data := pfc\<rparr>)"
    by (simp add: power_f_corrected_def run)
  then show ?thesis using len rowlen val by (simp add: shape0_def)
qed

text \<open>
  Claim C10 as stated says that the corrected value is the original value multiplied
  exactly by the frequency. For the entry \<open>1\<close> at the frequency \<open>49\<close> the two divisions
  give \<open>49 + 2^-47\<close> (printed \<^verbatim>\<open>49.00000000000001\<close>), which is not the product
  \<open>1 * 49\<close>; the product is itself a double, so rounding it changes nothing.
\<close>

theorem power_f_corrected_not_product:
  "power_f_corrected \<lparr>data = [[[Fin 1]]], freqs = [Fin 49]\<rparr> =
     Inr \<lparr>data = [[[Fin (6896136929411073 / 140737488355328)]]], freqs = [Fin 49]\<rparr> \<and>
   (6896136929411073 / 140737488355328 :: rat) \<noteq> 1 * 49 \<and>
   round_f64 (1 * 49) = Fin 49"
  by code_simp

theorem power_f_corrected_entries_witness:
  "is_ndarray3 (data \<lparr>data = [[[Fin 1, Fin 2], [Fin 3, Fin 4]], [[Fin 7, Fin 8], [Fin 9, Fin 10]]],
                       freqs = [Fin 4, Fin 49]\<rparr>) \<and>
   shape1 (data \<lparr>data = [[[Fin 1, Fin 2], [Fin 3, Fin 4]], [[Fin 7, Fin 8], [Fin 9, Fin 10]]],
                   freqs = [Fin 4, Fin 49]\<rparr>) \<le>
     length (freqs \<lparr>data = [[[Fin 1, Fin 2], [Fin 3, Fin 4]], [[Fin 7, Fin 8], [Fin 9, Fin 10]]],
                      freqs = [Fin 4, Fin 49]\<rparr>) \<and>
   (\<exists>pw'. power_f_corrected
             \<lparr>data = [[[Fin 1, Fin 2], [Fin 3, Fin 4]], [[Fin 7, Fin 8], [Fin 9, Fin 10]]],
              freqs = [Fin 4, Fin 49]\<rparr> = Inr pw' \<and>
          freqs pw' = [Fin 4, Fin 49] \<and> length (data pw') = 2 \<and>
          data pw' ! 1 ! 0 ! 1 = Fin 32 \<and>
          data pw' ! 1 ! 1 ! 0 = Fin (7758154045587457 / 17592186044416))"
proof -
  let ?P = "\<lparr>data = [[[Fin 1, Fin 2], [Fin 3, Fin 4]], [[Fin 7, Fin 8], [Fin 9, Fin 10]]],
            freqs = [Fin 4, Fin 49]\<rparr>"
  have a: "is_ndarray3 (data ?P)"
    by (simp add: is_ndarray3_def shape1_def shape2_def)
  have b: "shape1 (data ?P) \<le> length (freqs ?P)"
    by (simp add: shape1_def)
  have s: "shape0 (data ?P) = 2" "shape1 (data ?P) = 2" "shape2 (data ?P) = 2"
    by (simp_all add: shape0_def shape1_def shape2_def)
  from power_f_corrected_entries [OF a b] obtain pw' where
    run: "power_f_corrected ?P = Inr pw'" and fq: "freqs pw' = freqs ?P" and
    len: "length (data pw') = length (data ?P)" and
    ent: "\<forall>e < shape0 (data ?P). length (data pw' ! e) = length (data ?P ! e) \<and>
              (\<forall>f < shape1 (data ?P).
                 length (data pw' ! e ! f) = length (data ?P ! e ! f) \<and>
                 (\<forall>t < shape2 (data ?P).
                    data pw' ! e ! f ! t =
                      fdiv (data ?P ! e ! f ! t) (fdiv (Fin 1) (freqs ?P ! f))))"
    by blast
  have v1: "fdiv (Fin 8) (fdiv (Fin 1) (Fin 4)) = Fin 32" by code_simp
  have v2: "fdiv (Fin 9) (fdiv (Fin 1) (Fin 49)) = Fin (7758154045587457 / 17592186044416)"
    by code_simp
  have "data pw' ! 1 ! 0 ! 1 = fdiv (data ?P ! 1 ! 0 ! 1) (fdiv (Fin 1) (freqs ?P ! 0))"
    using ent s by simp
  then have e1: "data pw' ! 1 ! 0 ! 1 = Fin 32" using v1 by simp
  have "data pw' ! 1 ! 1 ! 0 = fdiv (data ?P ! 1 ! 1 ! 0) (fdiv (Fin 1) (freqs ?P ! 1))"
    using ent s by simp
  then have e2: "data pw' ! 1 ! 1 ! 0 = Fin (7758154045587457 / 17592186044416)"
    using v2 by simp
  from a b run fq len e1 e2 show ?thesis by simp
qed

section \<open>Properties of the segmentation\<close>

declare tile_offsets.simps [simp del]

lemma tile_offsets_eq:
  "0 < d \<Longrightarrow> tile_offsets d L s = map (\<lambda>i. s + i * d) [0..<(L - s) div d]"
proof (induction d L s rule: tile_offsets.induct)
  case (1 d L s)
  show ?case
  proof (cases "L < s + d")
    case True
    then have "L - s < d" using 1(2) by arith
    then have "(L - s) div d = 0" by simp
    with True 1 show ?thesis by (simp add: tile_offsets.simps [of d L s])
  next
    case False
    then have "\<not> L - s < d" by arith
    then have "(L - s) div d = Suc ((L - s - d) div d)"
      using 1(2) by (simp add: le_div_geq)
    then have e: "(L - s) div d = Suc ((L - (s + d)) div d)" by simp
    have "tile_offsets d L s = s # tile_offsets d L (s + d)"
      using False 1(2) by (simp add: tile_offsets.simps [of d L s])
    also have "\<dots> = s # map (\<lambda>i. (s + d) + i * d) [0..<(L - (s + d)) div d]"
      using 1 False by simp
    also have "\<dots> = map (\<lambda>i. s + i * d) [0..<(L - s) div d]"
      unfolding e by (simp add: upt_conv_Cons map_Suc_upt [symmetric] del: upt_Suc)
    finally show ?thesis .
  qed
qed


lemma create_epochs_closed_form:
  assumes "0 < d"
  shows "create_epochs d eeg =
     (if n_times eeg < d then Inl InsufficientDataError
      else Inr (map (\<lambda>i. cut d eeg (i * d)) [0..<n_times eeg div d]))"
  using assms by (simp add: create_epochs_def tile_offsets_eq comp_def)

lemma concat_take_drop:
  "concat (map (\<lambda>i. take d (drop (i * d) xs)) [0..<n]) = take (n * d) xs"
proof (induction n)
  case 0
  then show ?case by simp
next
  case (Suc n)
  have "take (Suc n * d) xs = take (n * d) xs @ take d (drop (n * d) xs)"
    by (simp add: take_add [symmetric] add.commute)
  with Suc show ?case by simp
qed

lemma tiles_fit: "0 < d \<Longrightarrow> i < L div d \<Longrightarrow> i * d + d \<le> (L::nat)"
proof -
  assume d: "0 < d" and i: "i < L div d"
  then have "Suc i \<le> L div d" by simp
  then have "Suc i * d \<le> (L div d) * d" by (rule mult_le_mono1)
  also have "\<dots> \<le> L" by simp
  finally show ?thesis by simp
qed

text \<open>
  Claim C1. For an epoch duration \<open>duration > 0\<close> and a signal of \<open>L = n_times eeg\<close>
  samples, segmentation without markers produces \<open>L div duration\<close> epochs: when the
  signal is shorter than one epoch it fails with InsufficientDataError and
  \<open>L div duration = 0\<close>, no epoch being produced; otherwise it returns
  \<open>L div duration\<close> epochs, the \<open>i\<close>-th starting at sample \<open>i * duration\<close> (they tile
  the signal from time zero), lying inside the signal and holding the \<open>duration\<close>
  samples of every channel from its offset on; two epochs never overlap, consecutive
  epochs leave no gap, the discarded tail is shorter than one epoch, and on every
  channel the epochs put end to end are the first \<open>(L div duration) * duration\<close>
  samples of the channel.
\<close>

theorem create_epochs_tiles:
  assumes d: "0 < duration"
  shows "(n_times eeg < duration \<longrightarrow>
            create_epochs duration eeg = Inl InsufficientDataError \<and>
            n_times eeg div duration = 0) \<and>
         (duration \<le> n_times eeg \<longrightarrow>
            (\<exists>es. create_epochs duration eeg = Inr es \<and>
               length es = n_times eeg div duration \<and>
               (\<forall>i < length es. offset (es ! i) = i * duration \<and>
                  offset (es ! i) + duration \<le> n_times eeg \<and>
                  segment (es ! i) = map (\<lambda>ch. take duration (drop (i * duration) ch)) eeg) \<and>
               (\<forall>i j. i < j \<and> j < length es \<longrightarrow>
                  offset (es ! i) + duration \<le> offset (es ! j)) \<and>
               (\<forall>i. Suc i < length es \<longrightarrow>
                  offset (es ! Suc i) = offset (es ! i) + duration) \<and>
               n_times eeg - length es * duration < duration \<and>
               (\<forall>c < length eeg.
                  concat (map (\<lambda>e. segment e ! c) es) =
                    take (length es * duration) (eeg ! c))))"
proof (intro conjI impI)
  assume short: "n_times eeg < duration"
  then show "create_epochs duration eeg = Inl InsufficientDataError"
    by (simp add: create_epochs_def)
  from short show "n_times eeg div duration = 0" by simp
next
  assume long: "duration \<le> n_times eeg"
  let ?n = "n_times eeg div duration"
  let ?es = "map (\<lambda>i. cut duration eeg (i * duration)) [0..<?n]"
  have run: "create_epochs duration eeg = Inr ?es"
    using d long by (simp add: create_epochs_closed_form)
  have len: "length ?es = ?n" by simp
  have each: "\<forall>i < length ?es. offset (?es ! i) = i * duration \<and>
      offset (?es ! i) + duration \<le> n_times eeg \<and>
      segment (?es ! i) = map (\<lambda>ch. take duration (drop (i * duration) ch)) eeg"
    using d by (simp add: cut_def tiles_fit)
  have apart: "\<forall>i j. i < j \<and> j < length ?es \<longrightarrow>
      offset (?es ! i) + duration \<le> offset (?es ! j)"
  proof (intro allI impI)
    fix i j assume ij: "i < j \<and> j < length ?es"
    then have "Suc i * duration \<le> j * duration" by (intro mult_le_mono1) simp
    with ij show "offset (?es ! i) + duration \<le> offset (?es ! j)"
      by (simp add: cut_def)
  qed
  have adjacent: "\<forall>i. Suc i < length ?es \<longrightarrow>
      offset (?es ! Suc i) = offset (?es ! i) + duration"
    by (simp add: cut_def)
  have rest: "n_times eeg - length ?es * duration < duration"
  proof -
    have "n_times eeg - ?n * duration = n_times eeg mod duration"
      by (simp add: minus_div_mult_eq_mod)
    then show ?thesis using d by simp
  qed
  have span: "\<forall>c < length eeg.
      concat (map (\<lambda>e. segment e ! c) ?es) = take (length ?es * duration) (eeg ! c)"
  proof (intro allI impI)
    fix c assume c: "c < length eeg"
    have eq: "map (\<lambda>e. segment e ! c) ?es =
        map (\<lambda>i. take duration (drop (i * duration) (eeg ! c))) [0..<?n]"
      using c by (simp add: cut_def comp_def)
    show "concat (map (\<lambda>e. segment e ! c) ?es) = take (length ?es * duration) (eeg ! c)"
      unfolding eq concat_take_drop by simp
  qed
  from run len each apart adjacent rest span
  show "\<exists>es. create_epochs duration eeg = Inr es \<and>
               length es = n_times eeg div duration \<and>
               (\<forall>i < length es. offset (es ! i) = i * duration \<and>
                  offset (es ! i) + duration \<le> n_times eeg \<and>
                  segment (es ! i) = map (\<lambda>ch. take duration (drop (i * duration) ch)) eeg) \<and>
               (\<forall>i j. i < j \<and> j < length es \<longrightarrow>
                  offset (es ! i) + duration \<le> offset (es ! j)) \<and>
               (\<forall>i. Suc i < length es \<longrightarrow>
                  offset (es ! Suc i) = offset (es ! i) + duration) \<and>
               n_times eeg - length es * duration < duration \<and>
               (\<forall>c < length eeg.
                  concat (map (\<lambda>e. segment e ! c) es) =
                    take (length es * duration) (eeg ! c))"
    by blast
qed

theorem create_epochs_tiles_witness:
  "(0::nat) < 3 \<and>
   (\<exists>es. create_epochs 3 [[1, 2, 3, 4, 5, 6, 7, 8], [11, 12, 13, 14, 15, 16, 17, 18]] = Inr es \<and>
      length es = 2 \<and> offset (es ! 1) = 3 \<and> segment (es ! 1) = [[4, 5, 6], [14, 15, 16]] \<and>
      concat (map (\<lambda>e. segment e ! 0) es) = [1, 2, 3, 4, 5, 6])"
proof -
  let ?eeg = "[[1, 2, 3, 4, 5, 6, 7, 8], [11, 12, 13, 14, 15, 16, 17, 18::real]]"
  have d: "(0::nat) < 3" by simp
  have n: "n_times ?eeg = 8" by (simp add: n_times_def)
  have long: "3 \<le> n_times ?eeg" by (simp add: n)
  from create_epochs_tiles [OF d, of ?eeg, THEN conjunct2, rule_format, OF long]
  obtain es where
    run: "create_epochs 3 ?eeg = Inr es" and len: "length es = n_times ?eeg div 3" and
    each: "\<forall>i < length es. offset (es ! i) = i * 3 \<and> offset (es ! i) + 3 \<le> n_times ?eeg \<and>
      segment (es ! i) = map (\<lambda>ch. take 3 (drop (i * 3) ch)) ?eeg" and
    span: "\<forall>c < length ?eeg. concat (map (\<lambda>e. segment e ! c) es) = take (length es * 3) (?eeg ! c)"
    by blast
  have len2: "length es = 2" by (simp add: len n)
  have one: "offset (es ! 1) = 3 \<and> segment (es ! 1) = [[4, 5, 6], [14, 15, 16]]"
    using each len2 by simp
  have sp: "concat (map (\<lambda>e. segment e ! 0) es) = [1, 2, 3, 4, 5, 6]"
    using span len2 by simp
  from d run len2 one sp show ?thesis by blast
qed

section \<open>Properties of the average reference\<close>

lemma sum_list_shift:
  "(\<Sum>x\<leftarrow>xs. f x - (m::real)) = (\<Sum>x\<leftarrow>xs. f x) - real (length xs) * m"
  by (induction xs) (simp_all add: algebra_simps)

lemma set_eeg_reference_length: "length (set_eeg_reference chs) = length chs"
  by (simp add: set_eeg_reference_def)

lemma set_eeg_reference_nth:
  "c < length chs \<Longrightarrow> t < length (chs ! c) \<Longrightarrow>
   set_eeg_reference chs ! c ! t = chs ! c ! t - channel_mean chs t"
  by (simp add: set_eeg_reference_def)

lemma referenced_mean_zero:
  assumes sig: "is_signal chs" and t: "t < n_times chs"
  shows "channel_mean (set_eeg_reference chs) t = 0"
proof -
  have ne: "chs \<noteq> []" using t by (auto simp: n_times_def)
  have "map (\<lambda>ch. ch ! t) (set_eeg_reference chs) = map (\<lambda>ch. ch ! t - channel_mean chs t) chs"
    using sig t by (auto simp: set_eeg_reference_def is_signal_def)
  then have "(\<Sum>ch\<leftarrow>set_eeg_reference chs. ch ! t) =
      (\<Sum>ch\<leftarrow>chs. ch ! t) - real (length chs) * channel_mean chs t"
    by (simp add: sum_list_shift)
  also have "\<dots> = 0" using ne by (simp add: channel_mean_def)
  finally show ?thesis by (simp add: channel_mean_def)
qed

lemma set_eeg_reference_signal:
  "is_signal chs \<Longrightarrow> is_signal (set_eeg_reference chs) \<and> n_times (set_eeg_reference chs) = n_times chs"
  by (cases chs) (auto simp: is_signal_def set_eeg_reference_def n_times_def)

text \<open>
  Claim C4, as the code has it. One application of the average reference replaces every
  sample of every channel by its deviation from the across-channel mean at that sample,
  keeping the shape of the signal; the referenced signal has mean zero at every sample,
  so a second application returns the referenced signal unchanged.
\<close>

theorem set_eeg_reference_once_and_twice:
  assumes sig: "is_signal chs"
  shows "length (set_eeg_reference chs) = length chs \<and>
         (\<forall>c < length chs. length (set_eeg_reference chs ! c) = length (chs ! c) \<and>
            (\<forall>t < length (chs ! c).
               set_eeg_reference chs ! c ! t = chs ! c ! t - channel_mean chs t)) \<and>
         set_eeg_reference (set_eeg_reference chs) = set_eeg_reference chs"
proof (intro conjI allI impI)
  show "length (set_eeg_reference chs) = length chs" by (rule set_eeg_reference_length)
next
  fix c assume "c < length chs"
  then show "length (set_eeg_reference chs ! c) = length (chs ! c)"
    by (simp add: set_eeg_reference_def)
next
  fix c t assume "c < length chs" "t < length (chs ! c)"
  then show "set_eeg_reference chs ! c ! t = chs ! c ! t - channel_mean chs t"
    by (rule set_eeg_reference_nth)
next
  let ?R = "set_eeg_reference chs"
  have sigR: "is_signal ?R" and nR: "n_times ?R = n_times chs"
    using set_eeg_reference_signal [OF sig] by simp_all
  have "map (\<lambda>t. ch ! t - channel_mean ?R t) [0..<length ch] = ch" if "ch \<in> set ?R" for ch
  proof -
    have len: "length ch = n_times chs" using that sigR nR by (simp add: is_signal_def)
    have "map (\<lambda>t. ch ! t - channel_mean ?R t) [0..<length ch] = map (\<lambda>t. ch ! t) [0..<length ch]"
      using len by (intro map_cong refl) (simp add: referenced_mean_zero [OF sig])
    then show ?thesis by (simp add: map_nth)
  qed
  then have "map (\<lambda>ch. map (\<lambda>t. ch ! t - channel_mean ?R t) [0..<length ch]) ?R = map (\<lambda>ch. ch) ?R"
    by (intro map_cong refl)
  then show "set_eeg_reference ?R = ?R"
    by (simp add: set_eeg_reference_def [of ?R])
qed

text \<open>
  Claim C4 as stated says that a second application changes the result. On the
  2-channel, 4-sample signal with channels \<open>[1, 2, 3, 4]\<close> and \<open>[3, 4, 5, 7]\<close> the
  second application returns exactly what the first returned.
\<close>

theorem set_eeg_reference_twice_unchanged:
  "set_eeg_reference (set_eeg_reference [[1, 2, 3, 4], [3, 4, 5, 7]]) =
     set_eeg_reference [[1, 2, 3, 4], [3, 4, 5, 7]] \<and>
   set_eeg_reference [[1, 2, 3, 4], [3, 4, 5, 7]] =
     [[-1, -1, -1, -3/2], [1, 1, 1, 3/2]]"
  by (simp add: set_eeg_reference_def channel_mean_def upt_conv_Cons)

theorem set_eeg_reference_once_and_twice_witness:
  "is_signal [[1, 2, 3, 4], [3, 4, 5, 7]] \<and>
   set_eeg_reference [[1, 2, 3, 4], [3, 4, 5, 7]] ! 1 ! 3 = 3 / 2 \<and>
   set_eeg_reference (set_eeg_reference [[1, 2, 3, 4], [3, 4, 5, 7]]) =
     set_eeg_reference [[1, 2, 3, 4], [3, 4, 5, 7]]"
proof -
  let ?x = "[[1, 2, 3, 4], [3, 4, 5, 7::real]]"
  have sig: "is_signal ?x" by (simp add: is_signal_def n_times_def)
  from set_eeg_reference_once_and_twice [OF sig]
  have a: "\<forall>c < length ?x. length (set_eeg_reference ?x ! c) = length (?x ! c) \<and>
            (\<forall>t < length (?x ! c). set_eeg_reference ?x ! c ! t = ?x ! c ! t - channel_mean ?x t)"
    and b: "set_eeg_reference (set_eeg_reference ?x) = set_eeg_reference ?x"
    by blast+
  have "set_eeg_reference ?x ! 1 ! 3 = ?x ! 1 ! 3 - channel_mean ?x 3"
    using a by simp
  then have "set_eeg_reference ?x ! 1 ! 3 = 3 / 2" by (simp add: channel_mean_def)
  with sig b show ?thesis by blast
qed

section \<open>Properties of the tabular log\<close>

lemma update_log_length:
  "length (update_log lg row) =
     (if ident row \<in> ident ` set lg then length lg else Suc (length lg))"
  by (induction lg) auto



section \<open>Properties of the notebook\<close>

declare str_nat.simps [simp del]

lemma heap_store: "heap (store r obj s) = (heap s)[r := obj]"
  by (simp add: store_def)

lemma exec_ApplyIca:
  "exec c ApplyIca s = Inr s' \<Longrightarrow>
   \<exists>excl r d. ica s = Some excl \<and> epochs_faster s = Some r \<and> r < length (heap s) \<and>
     ext_ica_apply c excl (heap s ! r) = Inr d \<and>
     s' = store r ((heap s ! r)\<lparr>epo_data := d,
            description := Some (''n_components: '' @ str_nat (length excl))\<rparr>) s"
  by (auto simp: deref_def split: option.splits sum.splits prod.splits if_splits)

lemma exec_SetReference:
  "exec c SetReference s = Inr s' \<Longrightarrow>
   \<exists>r d. epochs_ransac s = Some r \<and> r < length (heap s) \<and>
     ext_set_eeg_reference c (heap s ! r) = Inr d \<and>
     s' = store r ((heap s ! r)\<lparr>epo_data := d\<rparr>) s"
  by (auto simp: deref_def split: option.splits sum.splits prod.splits if_splits)

lemma run_append:
  "run c (xs @ ys) s = (case run c xs s of Inl e \<Rightarrow> Inl e | Inr s' \<Rightarrow> run c ys s')"
  by (induction xs arbitrary: s) (auto split: sum.splits)

lemma run_snoc_Inr:
  "run c (xs @ [x]) s = Inr s' \<Longrightarrow> \<exists>s1. run c xs s = Inr s1 \<and> exec c x s1 = Inr s'"
  by (auto simp: run_append split: sum.splits)

lemma deref_Inr:
  "deref s v = Inr (r, obj) \<longleftrightarrow> v = Some r \<and> r < length (heap s) \<and> obj = heap s ! r"
  by (auto simp: deref_def split: option.splits)

lemma set_setting_heap:
  "set_setting sec k v s = Inr s' \<Longrightarrow> heap s' = heap s"
  by (auto simp: set_setting_def split: option.splits)

lemma save_epochs_frame:
  assumes "save_epochs suffix v s = Inr s'"
  shows "length (heap s') = length (heap s) \<and>
         (\<forall>r < length (heap s). heap s' ! r \<noteq> heap s ! r \<longrightarrow> v = Some r) \<and>
         (\<forall>r < length (heap s). description (heap s' ! r) = description (heap s ! r))"
  using assms
  by (auto simp: save_epochs_def store_def Let_def deref_Inr nth_list_update
           split: sum.splits prod.splits if_splits)

lemma drop_epochs_fields:
  "drop_epochs idx reason obj = Inr obj' \<Longrightarrow>
   description obj' = description obj \<and> bads obj' = bads obj \<and> fid obj' = fid obj"
  by (auto simp: drop_epochs_def Let_def split: if_splits)

lemma plot_epochs_effect:
  "plot_epochs c v s = Inr s' \<Longrightarrow>
   \<exists>r obj'. v = Some r \<and> r < length (heap s) \<and>
     drop_epochs (snd (ext_plot_epochs c (heap s ! r))) ''USER''
       ((heap s ! r)\<lparr>bads := fst (ext_plot_epochs c (heap s ! r))\<rparr>) = Inr obj' \<and>
     s' = store r obj' s"
  by (auto simp: plot_epochs_def deref_def split: option.splits sum.splits prod.splits if_splits)

lemma plot_epochs_frame:
  assumes "plot_epochs c v s = Inr s'"
  shows "length (heap s') = length (heap s) \<and>
         (\<forall>r < length (heap s). heap s' ! r \<noteq> heap s ! r \<longrightarrow> v = Some r) \<and>
         (\<forall>r < length (heap s). description (heap s' ! r) = description (heap s ! r))"
proof -
  from plot_epochs_effect [OF assms] obtain r obj' where
    v: "v = Some r" "r < length (heap s)" and
    d: "drop_epochs (snd (ext_plot_epochs c (heap s ! r))) ''USER''
       ((heap s ! r)\<lparr>bads := fst (ext_plot_epochs c (heap s ! r))\<rparr>) = Inr obj'" and
    s': "s' = store r obj' s"
    by blast
  from drop_epochs_fields [OF d] have "description obj' = description (heap s ! r)" by simp
  then show ?thesis using v s' by (auto simp: store_def nth_list_update)
qed

lemma write_log_heap:
  "write_log c v s = Inr s' \<Longrightarrow> heap s' = heap s"
  by (auto simp: write_log_def split: sum.splits prod.splits)

lemma exec_frame:
  assumes "exec c x s = Inr s'"
  shows "length (heap s) \<le> length (heap s') \<and>
         (\<forall>r < length (heap s). heap s' ! r \<noteq> heap s ! r \<longrightarrow>
            (x \<in> {ApplyIca, PlotFaster, SaveIca} \<and> epochs_faster s = Some r) \<or>
            (x \<in> {PlotAutoreject, SaveAutoreject} \<and> epochs_autoreject s = Some r) \<or>
            (x \<in> {PlotRansac, SetReference, SaveRansac} \<and> epochs_ransac s = Some r))"
proof (cases x)
  case (SetBandpass lo hi)
  with assms show ?thesis
    by (auto split: sum.splits dest!: set_setting_heap)
next
  case ApplyIca
  with assms exec_ApplyIca [of c s s'] show ?thesis
    by (auto simp: store_def nth_list_update split: if_splits)
next
  case SetReference
  with assms exec_SetReference [of c s s'] show ?thesis
    by (auto simp: store_def nth_list_update split: if_splits)
next
  case SaveIca
  with assms save_epochs_frame [of "''_ICA''" "epochs_faster s" s s'] show ?thesis by auto
next
  case SaveAutoreject
  with assms save_epochs_frame [of "''_ICA_autoreject''" "epochs_autoreject s" s s'] show ?thesis by auto
next
  case SaveRansac
  with assms save_epochs_frame [of "''_ICA_autoreject_ransac''" "epochs_ransac s" s s'] show ?thesis by auto
next
  case PlotFaster
  with assms plot_epochs_frame [of c "epochs_faster s" s s'] show ?thesis
    by (auto split: option.splits)
next
  case PlotAutoreject
  with assms plot_epochs_frame [of c "epochs_autoreject s" s s'] show ?thesis by auto
next
  case PlotRansac
  with assms plot_epochs_frame [of c "epochs_ransac s" s s'] show ?thesis by auto
next
  case InterpolateRansac
  with assms show ?thesis
    by (auto simp: alloc_def store_def Let_def nth_append
             split: option.splits sum.splits prod.splits)
qed (use assms in \<open>auto simp: alloc_def store_def nth_append
        dest: set_setting_heap write_log_heap
        split: option.splits sum.splits prod.splits\<close>)

lemma exec_InterpolateRansac:
  "exec c InterpolateRansac s = Inr s' \<Longrightarrow>
   \<exists>r0 bad_chs d d'. epochs_autoreject s = Some r0 \<and> r0 < length (heap s) \<and>
     ransac s = Some bad_chs \<and> description (heap s ! r0) = Some d \<and>
     s' = s\<lparr>heap := heap s @
              [(heap s ! r0)\<lparr>bads := bad_chs,
                 description := Some (d @ '', interpolated: '' @ join '', '' bad_chs),
                 epo_data := d', bads := []\<rparr>],
            epochs_ransac := Some (length (heap s))\<rparr>"
  by (auto simp: deref_def alloc_def store_def Let_def
           split: option.splits sum.splits prod.splits if_splits)

lemma exec_DropAutoreject:
  "exec c (DropAutoreject p) s = Inr s' \<Longrightarrow>
   \<exists>r0 rl obj. epochs_faster s = Some r0 \<and> r0 < length (heap s) \<and> reject_log s = Some rl \<and>
     drop_epochs (drop_indices p rl) ''AUTOREJECT'' (heap s ! r0) = Inr obj \<and>
     s' = s\<lparr>heap := heap s @ [obj], epochs_autoreject := Some (length (heap s))\<rparr>"
  by (auto simp: deref_def alloc_def store_def split: option.splits sum.splits prod.splits if_splits)

lemma drop_epochs_description:
  "drop_epochs idx reason obj = Inr obj' \<Longrightarrow> description obj' = description obj"
  by (auto simp: drop_epochs_def Let_def split: if_splits)

text \<open>
  Claim C5, as the code has it. Whatever values the settings cells assign, the notebook
  is the cells up to and including the interpolation cell, followed by the final visual
  inspection, the re-referencing cell and the last save and log; the re-referencing
  cell does not occur before the interpolation cell. For all collaborators and every
  starting session, when the cells up to the interpolation cell have run,
  \<^verbatim>\<open>epochs_ransac\<close> names an object whose \<^verbatim>\<open>info['bads']\<close> is empty; after the
  final visual inspection the same object is flagged with exactly the channels the
  reviewer selected there, and that is the object the average reference is computed
  on. A reviewer who selects none leaves no channel flagged.
\<close>

theorem reference_follows_interpolation:
  "notebook_with low high n thr =
     cells_through InterpolateRansac (notebook_with low high n thr) @
       [PlotRansac, SetReference, SaveRansac, LogRansac] \<and>
   SetReference \<notin> set (cells_through InterpolateRansac (notebook_with low high n thr)) \<and>
   (\<forall>c s0 s1. run c (cells_through InterpolateRansac (notebook_with low high n thr)) s0 = Inr s1 \<longrightarrow>
      (\<exists>r. epochs_ransac s1 = Some r \<and> r < length (heap s1) \<and> bads (heap s1 ! r) = [] \<and>
         (\<forall>s. exec c PlotRansac s1 = Inr s \<longrightarrow>
            epochs_ransac s = Some r \<and> r < length (heap s) \<and>
            bads (heap s ! r) = fst (ext_plot_epochs c (heap s1 ! r)))))"
proof (intro conjI allI impI)
  show "notebook_with low high n thr =
     cells_through InterpolateRansac (notebook_with low high n thr) @
       [PlotRansac, SetReference, SaveRansac, LogRansac]"
    by (simp add: cells_through_def cells_before_def notebook_with_def)
  show "SetReference \<notin> set (cells_through InterpolateRansac (notebook_with low high n thr))"
    by (simp add: cells_through_def cells_before_def notebook_with_def)
next
  fix c s0 s1
  assume "run c (cells_through InterpolateRansac (notebook_with low high n thr)) s0 = Inr s1"
  then obtain s' where "exec c InterpolateRansac s' = Inr s1"
    unfolding cells_through_def by (blast dest: run_snoc_Inr)
  from exec_InterpolateRansac [OF this] obtain r where
    r: "epochs_ransac s1 = Some r" "r < length (heap s1)" "bads (heap s1 ! r) = []"
    by auto
  have "epochs_ransac s = Some r \<and> r < length (heap s) \<and>
      bads (heap s ! r) = fst (ext_plot_epochs c (heap s1 ! r))"
    if "exec c PlotRansac s1 = Inr s" for s
  proof -
    from that have "plot_epochs c (epochs_ransac s1) s1 = Inr s" by simp
    from plot_epochs_effect [OF this] r obtain obj' where
      d: "drop_epochs (snd (ext_plot_epochs c (heap s1 ! r))) ''USER''
         ((heap s1 ! r)\<lparr>bads := fst (ext_plot_epochs c (heap s1 ! r))\<rparr>) = Inr obj'" and
      s: "s = store r obj' s1"
      by auto
    from drop_epochs_fields [OF d] s r show ?thesis by (simp add: store_def)
  qed
  with r show "\<exists>r. epochs_ransac s1 = Some r \<and> r < length (heap s1) \<and> bads (heap s1 ! r) = [] \<and>
         (\<forall>s. exec c PlotRansac s1 = Inr s \<longrightarrow>
            epochs_ransac s = Some r \<and> r < length (heap s) \<and>
            bads (heap s ! r) = fst (ext_plot_epochs c (heap s1 ! r)))"
    by blast
qed

text \<open>
  Claim C5 as stated says that the average reference is never computed while a channel
  flagged bad remains uninterpolated. In the demo session where the reviewer selects Fz
  in the final visual inspection, \<^verbatim>\<open>info['bads']\<close> is empty after the interpolation
  cell, holds Fz when the re-referencing cell starts, and still holds Fz, with the data
  of the object untouched by any interpolation, when it has run.
\<close>

theorem reference_with_flagged_channel:
  "obj_of (run demo_marking (cells_through InterpolateRansac notebook) demo_init) epochs_ransac =
     Some \<lparr>epo_data = [[[1, 2], [3, 4]]], selection = [0],
           drop_log = [[], [''AUTOREJECT''], [''FASTER'']],
           description = Some ''n_components: 2, interpolated: Fp1'',
           fid = ''s01_ICA_autoreject'', bads = []\<rparr> \<and>
   obj_of (run demo_marking (cells_before SetReference notebook) demo_init) epochs_ransac =
     Some \<lparr>epo_data = [[[1, 2], [3, 4]]], selection = [0],
           drop_log = [[], [''AUTOREJECT''], [''FASTER'']],
           description = Some ''n_components: 2, interpolated: Fp1'',
           fid = ''s01_ICA_autoreject'', bads = [''Fz'']\<rparr> \<and>
   obj_of (run demo_marking (cells_through SetReference notebook) demo_init) epochs_ransac =
     Some \<lparr>epo_data = [[[1, 2], [3, 4]]], selection = [0],
           drop_log = [[], [''AUTOREJECT''], [''FASTER'']],
           description = Some ''n_components: 2, interpolated: Fp1'',
           fid = ''s01_ICA_autoreject'', bads = [''Fz'']\<rparr>"
  by code_simp

theorem reference_follows_interpolation_witness:
  "\<exists>s1 s r. run demo_collab (cells_through InterpolateRansac (notebook_with 1 30 20 (5 / 100))) demo_init
        = Inr s1 \<and>
      exec demo_collab PlotRansac s1 = Inr s \<and>
      epochs_ransac s1 = Some r \<and> bads (heap s1 ! r) = [] \<and>
      epochs_ransac s = Some r \<and> bads (heap s ! r) = []"
proof -
  let ?r1 = "run demo_collab (cells_through InterpolateRansac (notebook_with 1 30 20 (5 / 100))) demo_init"
  let ?r2 = "run demo_collab (cells_before SetReference (notebook_with 1 30 20 (5 / 100))) demo_init"
  have ok: "\<not> isl ?r2" by code_simp
  have split: "cells_before SetReference (notebook_with 1 30 20 (5 / 100)) =
      cells_through InterpolateRansac (notebook_with 1 30 20 (5 / 100)) @ [PlotRansac]"
    by (simp add: cells_through_def cells_before_def notebook_with_def)
  from ok obtain s where "?r2 = Inr s" by (cases ?r2) auto
  then obtain s1 where s1: "?r1 = Inr s1" and e: "exec demo_collab PlotRansac s1 = Inr s"
    unfolding split by (blast dest: run_snoc_Inr)
  from reference_follows_interpolation [of 1 30 20 "5 / 100"] s1 e obtain r where
    r: "epochs_ransac s1 = Some r" "r < length (heap s1)" "bads (heap s1 ! r) = []"
      "epochs_ransac s = Some r"
      "bads (heap s ! r) = fst (ext_plot_epochs demo_collab (heap s1 ! r))"
    by blast
  have "fst (ext_plot_epochs demo_collab (heap s1 ! r)) = bads (heap s1 ! r)"
    by (simp add: demo_collab_def)
  with r s1 e show ?thesis by auto
qed

lemma exec_RunIca_heap: "exec c RunIca s = Inr s' \<Longrightarrow> heap s' = heap s"
  by (auto split: option.splits sum.splits prod.splits)

lemma exec_PlotSources_heap: "exec c PlotSources s = Inr s' \<Longrightarrow> heap s' = heap s"
  by (auto split: option.splits sum.splits prod.splits)

text \<open>
  Claim C6, as the code has it. A cell never removes an object, and it changes an
  existing object only in these cases: the ICA cell, the plot of the cleaned epochs
  and the ICA save overwrite the object \<^verbatim>\<open>epochs_faster\<close> names (the output of the
  preliminary rejection), the autoreject plots and save overwrite the object
  \<^verbatim>\<open>epochs_autoreject\<close> names, and the final visual inspection, the re-referencing
  cell and the last save overwrite the object \<^verbatim>\<open>epochs_ransac\<close> names (the output
  of the interpolation). The ICA fit and the component selection change no object, so
  abandoning the ICA stage before \<^verbatim>\<open>ica.apply\<close> leaves the output of the preliminary
  rejection as it was. The autoreject drop and the RANSAC cell put their output in a
  new object and leave their input unchanged; the ICA cell and the re-referencing cell
  work in place, on the very object handed to them.
\<close>

theorem stage_outputs_and_aliasing:
  assumes "exec c x s = Inr s'"
  shows "length (heap s) \<le> length (heap s') \<and>
         (\<forall>r < length (heap s). heap s' ! r \<noteq> heap s ! r \<longrightarrow>
            (x \<in> {ApplyIca, PlotFaster, SaveIca} \<and> epochs_faster s = Some r) \<or>
            (x \<in> {PlotAutoreject, SaveAutoreject} \<and> epochs_autoreject s = Some r) \<or>
            (x \<in> {PlotRansac, SetReference, SaveRansac} \<and> epochs_ransac s = Some r)) \<and>
         (x \<in> {RunIca, PlotSources} \<longrightarrow> heap s' = heap s) \<and>
         (x \<in> {DropAutoreject Lenient, DropAutoreject Strict} \<longrightarrow>
            epochs_autoreject s' = Some (length (heap s)) \<and> epochs_faster s' = epochs_faster s) \<and>
         (x = InterpolateRansac \<longrightarrow>
            epochs_ransac s' = Some (length (heap s)) \<and>
            epochs_autoreject s' = epochs_autoreject s) \<and>
         (x = ApplyIca \<longrightarrow>
            epochs_faster s' = epochs_faster s \<and> length (heap s') = length (heap s)) \<and>
         (x = SetReference \<longrightarrow>
            epochs_ransac s' = epochs_ransac s \<and> length (heap s') = length (heap s))"
proof (intro conjI)
  show "length (heap s) \<le> length (heap s')"
    using exec_frame [OF assms] by simp
  show "\<forall>r < length (heap s). heap s' ! r \<noteq> heap s ! r \<longrightarrow>
            (x \<in> {ApplyIca, PlotFaster, SaveIca} \<and> epochs_faster s = Some r) \<or>
            (x \<in> {PlotAutoreject, SaveAutoreject} \<and> epochs_autoreject s = Some r) \<or>
            (x \<in> {PlotRansac, SetReference, SaveRansac} \<and> epochs_ransac s = Some r)"
    using exec_frame [OF assms] by simp
  show "x \<in> {RunIca, PlotSources} \<longrightarrow> heap s' = heap s"
    using assms by (auto dest: exec_RunIca_heap exec_PlotSources_heap)
  show "x \<in> {DropAutoreject Lenient, DropAutoreject Strict} \<longrightarrow>
            epochs_autoreject s' = Some (length (heap s)) \<and> epochs_faster s' = epochs_faster s"
    using assms by (auto dest!: exec_DropAutoreject)
  show "x = InterpolateRansac \<longrightarrow>
            epochs_ransac s' = Some (length (heap s)) \<and>
            epochs_autoreject s' = epochs_autoreject s"
    using assms by (auto dest!: exec_InterpolateRansac)
  show "x = ApplyIca \<longrightarrow>
            epochs_faster s' = epochs_faster s \<and> length (heap s') = length (heap s)"
    using assms by (auto dest!: exec_ApplyIca simp: store_def)
  show "x = SetReference \<longrightarrow>
            epochs_ransac s' = epochs_ransac s \<and> length (heap s') = length (heap s)"
    using assms by (auto dest!: exec_SetReference simp: store_def)
qed

text \<open>
  Claim C6 as stated says that no stage changes the EpochSet handed to it. In the demo
  session \<^verbatim>\<open>epochs_faster\<close> names object 2 before and after the ICA cell, and the
  ICA cell changes the data and the description of that object.
\<close>

theorem ica_apply_mutates_stage2_output:
  "ref_of (run demo_collab (cells_through PlotSources notebook) demo_init) epochs_faster = Some 2 \<and>
   obj_of (run demo_collab (cells_through PlotSources notebook) demo_init) epochs_faster =
     Some \<lparr>epo_data = [[[2, 4], [6, 8]], [[2, 4], [6, 8]]], selection = [0, 1],
           drop_log = [[], [], [''FASTER'']], description = None, fid = ''s01'', bads = []\<rparr> \<and>
   ref_of (run demo_collab (cells_through ApplyIca notebook) demo_init) epochs_faster = Some 2 \<and>
   obj_of (run demo_collab (cells_through ApplyIca notebook) demo_init) epochs_faster =
     Some \<lparr>epo_data = [[[1, 2], [3, 4]], [[1, 2], [3, 4]]], selection = [0, 1],
           drop_log = [[], [], [''FASTER'']], description = Some ''n_components: 2'',
           fid = ''s01'', bads = []\<rparr>"
  by code_simp

theorem stage_outputs_and_aliasing_witness:
  "(\<exists>s s'. run demo_collab (cells_before (DropAutoreject Strict) notebook) demo_init = Inr s \<and>
      exec demo_collab (DropAutoreject Strict) s = Inr s' \<and>
      length (heap s) = 3 \<and> epochs_autoreject s' = Some 3 \<and>
      (\<forall>r < 3. heap s' ! r = heap s ! r)) \<and>
   (\<exists>s s'. run demo_collab (cells_before ApplyIca notebook) demo_init = Inr s \<and>
      exec demo_collab ApplyIca s = Inr s' \<and>
      epochs_faster s = Some 2 \<and> epochs_faster s' = Some 2 \<and> heap s' ! 2 \<noteq> heap s ! 2 \<and>
      heap s' ! 0 = heap s ! 0 \<and> heap s' ! 1 = heap s ! 1)"
proof -
  let ?r1 = "run demo_collab (cells_before (DropAutoreject Strict) notebook) demo_init"
  let ?r1' = "run demo_collab (cells_through (DropAutoreject Strict) notebook) demo_init"
  let ?r2 = "run demo_collab (cells_before ApplyIca notebook) demo_init"
  let ?r2' = "run demo_collab (cells_through ApplyIca notebook) demo_init"
  have ok1: "\<not> isl ?r1'" and ok2: "\<not> isl ?r2'" by code_simp+
  from ok1 obtain s1' where s1': "?r1' = Inr s1'" by (cases ?r1') auto
  then obtain s1 where s1: "?r1 = Inr s1" and e1: "exec demo_collab (DropAutoreject Strict) s1 = Inr s1'"
    unfolding cells_through_def by (blast dest: run_snoc_Inr)
  from ok2 obtain s2' where s2': "?r2' = Inr s2'" by (cases ?r2') auto
  then obtain s2 where s2: "?r2 = Inr s2" and e2: "exec demo_collab ApplyIca s2 = Inr s2'"
    unfolding cells_through_def by (blast dest: run_snoc_Inr)
  have "(case ?r1 of Inl e \<Rightarrow> 0 | Inr s \<Rightarrow> length (heap s)) = 3" by code_simp
  then have l1: "length (heap s1) = 3" by (simp add: s1)
  have "ref_of ?r2 epochs_faster = Some 2" by code_simp
  then have f2: "epochs_faster s2 = Some 2" by (simp add: s2 ref_of_def)
  have "(case ?r2 of Inl e \<Rightarrow> 0 | Inr s \<Rightarrow> length (heap s)) = 3" by code_simp
  then have l2: "length (heap s2) = 3" by (simp add: s2)
  have "obj_of ?r2 epochs_faster \<noteq> obj_of ?r2' epochs_faster" by code_simp
  then have ne: "heap s2' ! 2 \<noteq> heap s2 ! 2"
    using f2 l2 stage_outputs_and_aliasing [OF e2]
    by (auto simp: obj_of_def s2 s2' deref_def split: if_splits)
  have a: "epochs_autoreject s1' = Some 3 \<and> (\<forall>r < 3. heap s1' ! r = heap s1 ! r)"
    using stage_outputs_and_aliasing [OF e1] l1 by auto
  have fr2: "\<forall>r < length (heap s2). heap s2' ! r \<noteq> heap s2 ! r \<longrightarrow> epochs_faster s2 = Some r"
    using stage_outputs_and_aliasing [OF e2] by auto
  have b0: "heap s2' ! 0 = heap s2 ! 0"
    using fr2 [rule_format, of 0] l2 f2 by auto
  have b1: "heap s2' ! 1 = heap s2 ! 1"
    using fr2 [rule_format, of 1] l2 f2 by auto
  have "epochs_faster s2' = Some 2"
    using stage_outputs_and_aliasing [OF e2] f2 by simp
  with b0 b1 have b: "epochs_faster s2' = Some 2 \<and> heap s2' ! 0 = heap s2 ! 0 \<and> heap s2' ! 1 = heap s2 ! 1"
    by simp
  from s1 e1 l1 a s2 e2 f2 ne b show ?thesis by blast
qed

lemma fold_drop_log_length:
  "length (fold (\<lambda>i dl. dl[sel ! i := v]) idx dl) = length dl"
  by (induction idx arbitrary: dl) auto

lemma fold_drop_log_other:
  "\<forall>i \<in> set idx. sel ! i \<noteq> k \<Longrightarrow> fold (\<lambda>i dl. dl[sel ! i := v]) idx dl ! k = dl ! k"
  by (induction idx arbitrary: dl) auto

lemma drop_epochs_drop_log:
  assumes "drop_epochs idx reason obj = Inr obj'"
  shows "length (drop_log obj') = length (drop_log obj) \<and>
         (\<forall>k. k \<notin> set (selection obj) \<longrightarrow> drop_log obj' ! k = drop_log obj ! k)"
proof -
  from assms have inb: "\<forall>i \<in> set idx. i < length (selection obj)"
    and dl: "drop_log obj' = fold (\<lambda>i dl. dl[selection obj ! i := [reason]]) idx (drop_log obj)"
    by (auto simp: drop_epochs_def Let_def split: if_splits)
  have "drop_log obj' ! k = drop_log obj ! k" if "k \<notin> set (selection obj)" for k
  proof -
    have "\<forall>i \<in> set idx. selection obj ! i \<noteq> k"
      using inb that by (metis nth_mem)
    then show ?thesis unfolding dl by (rule fold_drop_log_other)
  qed
  then show ?thesis by (simp add: dl fold_drop_log_length)
qed

lemma save_epochs_drop_log:
  assumes "save_epochs suffix v s = Inr s'" and "r < length (heap s)"
  shows "drop_log (heap s' ! r) = drop_log (heap s ! r)"
  using assms
  by (auto simp: save_epochs_def store_def Let_def deref_Inr nth_list_update
           split: sum.splits prod.splits if_splits)

lemma plot_epochs_drop_log:
  assumes "plot_epochs c v s = Inr s'" and "r < length (heap s)"
  shows "length (drop_log (heap s' ! r)) = length (drop_log (heap s ! r)) \<and>
         (\<forall>k. k \<notin> set (selection (heap s ! r)) \<longrightarrow>
            drop_log (heap s' ! r) ! k = drop_log (heap s ! r) ! k)"
proof -
  from plot_epochs_effect [OF assms(1)] obtain r' obj' where
    v: "v = Some r'" "r' < length (heap s)" and
    d: "drop_epochs (snd (ext_plot_epochs c (heap s ! r'))) ''USER''
       ((heap s ! r')\<lparr>bads := fst (ext_plot_epochs c (heap s ! r'))\<rparr>) = Inr obj'" and
    s': "s' = store r' obj' s"
    by blast
  from drop_epochs_drop_log [OF d] show ?thesis
    using v s' assms(2) by (cases "r' = r") (auto simp: store_def)
qed

lemma exec_keeps_description:
  assumes "exec c x s = Inr s'" and "x \<noteq> ApplyIca" and "r < length (heap s)"
  shows "description (heap s' ! r) = description (heap s ! r)"
proof (cases "heap s' ! r = heap s ! r")
  case True
  then show ?thesis by simp
next
  case False
  with exec_frame [OF assms(1)] assms(2,3)
  consider "x = SaveIca" | "x = SaveAutoreject" | "x = SaveRansac" | "x = SetReference"
    | "x = PlotFaster" | "x = PlotAutoreject" | "x = PlotRansac"
    by auto
  then show ?thesis
  proof cases
    case 1
    with assms save_epochs_frame [of "''_ICA''" "epochs_faster s" s s'] show ?thesis by simp
  next
    case 2
    with assms save_epochs_frame [of "''_ICA_autoreject''" "epochs_autoreject s" s s']
    show ?thesis by simp
  next
    case 3
    with assms save_epochs_frame [of "''_ICA_autoreject_ransac''" "epochs_ransac s" s s']
    show ?thesis by simp
  next
    case 4
    with assms exec_SetReference [of c s s'] show ?thesis
      by (auto simp: store_def nth_list_update split: if_splits)
  next
    case 5
    with assms plot_epochs_frame [of c "epochs_faster s" s s'] show ?thesis
      by (auto split: option.splits)
  next
    case 6
    with assms plot_epochs_frame [of c "epochs_autoreject s" s s'] show ?thesis by simp
  next
    case 7
    with assms plot_epochs_frame [of c "epochs_ransac s" s s'] show ?thesis by simp
  qed
qed

lemma exec_keeps_drop_log:
  assumes "exec c x s = Inr s'" and "r < length (heap s)"
  shows "length (drop_log (heap s' ! r)) = length (drop_log (heap s ! r)) \<and>
         (\<forall>k. k \<notin> set (selection (heap s ! r)) \<longrightarrow>
            drop_log (heap s' ! r) ! k = drop_log (heap s ! r) ! k)"
proof (cases "heap s' ! r = heap s ! r")
  case True
  then show ?thesis by simp
next
  case False
  with exec_frame [OF assms(1)] assms(2)
  consider "x = SaveIca" | "x = SaveAutoreject" | "x = SaveRansac" | "x = SetReference"
    | "x = PlotFaster" | "x = PlotAutoreject" | "x = PlotRansac" | "x = ApplyIca"
    by auto
  then show ?thesis
  proof cases
    case 1
    with assms save_epochs_drop_log [of "''_ICA''" "epochs_faster s" s s' r] show ?thesis by simp
  next
    case 2
    with assms save_epochs_drop_log [of "''_ICA_autoreject''" "epochs_autoreject s" s s' r]
    show ?thesis by simp
  next
    case 3
    with assms save_epochs_drop_log [of "''_ICA_autoreject_ransac''" "epochs_ransac s" s s' r]
    show ?thesis by simp
  next
    case 4
    with assms exec_SetReference [of c s s'] show ?thesis
      by (auto simp: store_def nth_list_update split: if_splits)
  next
    case 5
    with assms plot_epochs_drop_log [of c "epochs_faster s" s s' r] show ?thesis
      by (auto split: option.splits)
  next
    case 6
    with assms plot_epochs_drop_log [of c "epochs_autoreject s" s s' r] show ?thesis by simp
  next
    case 7
    with assms plot_epochs_drop_log [of c "epochs_ransac s" s s' r] show ?thesis by simp
  next
    case 8
    with assms exec_ApplyIca [of c s s'] show ?thesis
      by (auto simp: store_def nth_list_update split: if_splits)
  qed
qed

lemma set_setting_vars:
  "set_setting sec k v s = Inr s' \<Longrightarrow>
   epochs_faster s' = epochs_faster s \<and> epochs_autoreject s' = epochs_autoreject s \<and>
   epochs_ransac s' = epochs_ransac s"
  by (auto simp: set_setting_def split: option.splits)

lemma save_epochs_vars:
  "save_epochs suffix v s = Inr s' \<Longrightarrow>
   epochs_faster s' = epochs_faster s \<and> epochs_autoreject s' = epochs_autoreject s \<and>
   epochs_ransac s' = epochs_ransac s"
  by (auto simp: save_epochs_def store_def Let_def split: sum.splits prod.splits)

lemma write_log_vars:
  "write_log c v s = Inr s' \<Longrightarrow>
   epochs_faster s' = epochs_faster s \<and> epochs_autoreject s' = epochs_autoreject s \<and>
   epochs_ransac s' = epochs_ransac s"
  by (auto simp: write_log_def split: sum.splits prod.splits)

lemma plot_epochs_vars:
  "plot_epochs c v s = Inr s' \<Longrightarrow>
   epochs_faster s' = epochs_faster s \<and> epochs_autoreject s' = epochs_autoreject s \<and>
   epochs_ransac s' = epochs_ransac s"
  by (auto simp: store_def dest!: plot_epochs_effect)

lemma exec_vars:
  assumes "exec c x s = Inr s'"
  shows "(x \<noteq> PrepareEpochs \<longrightarrow> epochs_faster s' = epochs_faster s) \<and>
         (x \<notin> {DropAutoreject Lenient, DropAutoreject Strict} \<longrightarrow>
            epochs_autoreject s' = epochs_autoreject s) \<and>
         (x \<noteq> InterpolateRansac \<longrightarrow> epochs_ransac s' = epochs_ransac s)"
proof (cases x)
  case (SetBandpass lo hi)
  with assms show ?thesis by (auto split: sum.splits dest!: set_setting_vars)
next
  case (DropAutoreject p)
  with assms exec_DropAutoreject [of c p s s'] show ?thesis by (cases p) auto
next
  case InterpolateRansac
  with assms exec_InterpolateRansac [of c s s'] show ?thesis by auto
next
  case ApplyIca
  with assms exec_ApplyIca [of c s s'] show ?thesis by (auto simp: store_def)
next
  case SetReference
  with assms exec_SetReference [of c s s'] show ?thesis by (auto simp: store_def)
qed (use assms in \<open>auto simp: alloc_def store_def
        dest: set_setting_vars save_epochs_vars write_log_vars plot_epochs_vars
        split: option.splits sum.splits prod.splits\<close>)

lemma run_append_Inr:
  "run c (xs @ ys) s = Inr s' \<Longrightarrow> \<exists>s1. run c xs s = Inr s1 \<and> run c ys s1 = Inr s'"
  by (auto simp: run_append split: sum.splits)

lemma run_keeps:
  assumes "run c xs s = Inr s'" and "ApplyIca \<notin> set xs"
  shows "length (heap s) \<le> length (heap s') \<and>
         (\<forall>r < length (heap s). description (heap s' ! r) = description (heap s ! r))"
  using assms
proof (induction xs arbitrary: s)
  case Nil
  then show ?case by simp
next
  case (Cons x xs)
  from Cons.prems obtain s1 where e: "exec c x s = Inr s1" and r: "run c xs s1 = Inr s'"
    by (auto split: sum.splits)
  from Cons.prems have x: "x \<noteq> ApplyIca" and xs: "ApplyIca \<notin> set xs" by auto
  from exec_frame [OF e] have l: "length (heap s) \<le> length (heap s1)" by simp
  from Cons.IH [OF r xs] have
    l1: "length (heap s1) \<le> length (heap s')" and
    d1: "\<forall>r < length (heap s1). description (heap s' ! r) = description (heap s1 ! r)"
    by simp_all
  show ?case
  proof (intro conjI allI impI)
    show "length (heap s) \<le> length (heap s')" using l l1 by simp
  next
    fix r assume rr: "r < length (heap s)"
    then have "description (heap s' ! r) = description (heap s1 ! r)" using d1 l by simp
    also have "\<dots> = description (heap s ! r)" using exec_keeps_description [OF e x rr] .
    finally show "description (heap s' ! r) = description (heap s ! r)" .
  qed
qed

lemma run_vars:
  assumes "run c xs s = Inr s'"
  shows "(PrepareEpochs \<notin> set xs \<longrightarrow> epochs_faster s' = epochs_faster s) \<and>
         (DropAutoreject Lenient \<notin> set xs \<and> DropAutoreject Strict \<notin> set xs \<longrightarrow>
            epochs_autoreject s' = epochs_autoreject s) \<and>
         (InterpolateRansac \<notin> set xs \<longrightarrow> epochs_ransac s' = epochs_ransac s)"
  using assms
proof (induction xs arbitrary: s)
  case Nil
  then show ?case by simp
next
  case (Cons x xs)
  from Cons.prems obtain s1 where e: "exec c x s = Inr s1" and r: "run c xs s1 = Inr s'"
    by (auto split: sum.splits)
  from exec_vars [OF e] Cons.IH [OF r] show ?case by auto
qed

lemma notebook_split:
  "notebook_with low high n thr =
     [SetBandpass low high, FilterRaw, CreateEpochs, PickChannels, PrepareEpochs,
      SetIcaComponents n, RunIca, PlotSources] @ [ApplyIca] @
     [PlotFaster, SaveIca, LogIca, RunAutoreject] @ [DropAutoreject Strict] @
     [PlotAutoreject, SaveAutoreject, LogAutoreject, SetRansacThreshold thr, RunRansac,
      PlotAutoreject] @ [InterpolateRansac] @
     [PlotRansac, SetReference, SaveRansac, LogRansac]"
  by (simp add: notebook_with_def)

lemma run_single: "run c [x] s = Inr s' \<Longrightarrow> exec c x s = Inr s'"
  by (auto split: sum.splits)

lemma run_split:
  assumes "run c (A @ [x] @ B @ [y] @ C @ [z] @ D) s0 = Inr s"
  shows "\<exists>sA s1 sB s2 sC s3. exec c x sA = Inr s1 \<and> run c B s1 = Inr sB \<and>
           exec c y sB = Inr s2 \<and> run c C s2 = Inr sC \<and>
           exec c z sC = Inr s3 \<and> run c D s3 = Inr s"
proof -
  from run_append_Inr [OF assms] obtain sA where
    1: "run c ([x] @ B @ [y] @ C @ [z] @ D) sA = Inr s" by blast
  from run_append_Inr [OF 1] obtain s1 where
    x: "exec c x sA = Inr s1" and 2: "run c (B @ [y] @ C @ [z] @ D) s1 = Inr s"
    by (blast dest: run_single)
  from run_append_Inr [OF 2] obtain sB where
    B: "run c B s1 = Inr sB" and 3: "run c ([y] @ C @ [z] @ D) sB = Inr s" by blast
  from run_append_Inr [OF 3] obtain s2 where
    y: "exec c y sB = Inr s2" and 4: "run c (C @ [z] @ D) s2 = Inr s"
    by (blast dest: run_single)
  from run_append_Inr [OF 4] obtain sC where
    C: "run c C s2 = Inr sC" and 5: "run c ([z] @ D) sC = Inr s" by blast
  from run_append_Inr [OF 5] obtain s3 where
    z: "exec c z sC = Inr s3" and D: "run c D s3 = Inr s"
    by (blast dest: run_single)
  from x B y C z D show ?thesis by blast
qed

lemma notebook_trail:
  assumes "run c (notebook_with low high n thr) s0 = Inr s"
  shows "\<exists>k names r3 r4 r5.
           epochs_faster s = Some r3 \<and> r3 < length (heap s) \<and>
           description (heap s ! r3) = Some (''n_components: '' @ str_nat k) \<and>
           epochs_autoreject s = Some r4 \<and> r4 < length (heap s) \<and>
           description (heap s ! r4) = Some (''n_components: '' @ str_nat k) \<and>
           epochs_ransac s = Some r5 \<and> r5 < length (heap s) \<and>
           description (heap s ! r5) =
             Some (''n_components: '' @ str_nat k @ '', interpolated: '' @ join '', '' names)"
proof -
  let ?B = "[PlotFaster, SaveIca, LogIca, RunAutoreject]"
  let ?C = "[PlotAutoreject, SaveAutoreject, LogAutoreject, SetRansacThreshold thr, RunRansac,
      PlotAutoreject]"
  let ?D = "[PlotRansac, SetReference, SaveRansac, LogRansac]"
  from assms obtain sA s1 sB s2 sC s3 where
    a: "exec c ApplyIca sA = Inr s1" and
    b: "run c ?B s1 = Inr sB" and
    d: "exec c (DropAutoreject Strict) sB = Inr s2" and
    cc: "run c ?C s2 = Inr sC" and
    i: "exec c InterpolateRansac sC = Inr s3" and
    dd: "run c ?D s3 = Inr s"
    unfolding notebook_split by (blast dest: run_split)
  have "\<exists>k r3. epochs_faster s1 = Some r3 \<and> r3 < length (heap s1) \<and>
      description (heap s1 ! r3) = Some (''n_components: '' @ str_nat k)"
    using exec_ApplyIca [OF a] by (elim exE conjE) (auto simp: store_def)
  then obtain k r3 where
    r3: "epochs_faster s1 = Some r3" "r3 < length (heap s1)"
      "description (heap s1 ! r3) = Some (''n_components: '' @ str_nat k)"
    by (elim exE conjE)
  from run_keeps [OF b] run_vars [OF b] r3 have
    B: "epochs_faster sB = Some r3" "r3 < length (heap sB)"
      "description (heap sB ! r3) = Some (''n_components: '' @ str_nat k)"
    by auto
  from exec_DropAutoreject [OF d] obtain r0 rl obj where
    r0: "epochs_faster sB = Some r0" and
    dr: "drop_epochs (drop_indices Strict rl) ''AUTOREJECT'' (heap sB ! r0) = Inr obj" and
    s2: "s2 = sB\<lparr>heap := heap sB @ [obj], epochs_autoreject := Some (length (heap sB))\<rparr>"
    by blast
  let ?r4 = "length (heap sB)"
  from drop_epochs_description [OF dr] r0 B s2 have
    S2: "epochs_faster s2 = Some r3" "r3 < length (heap s2)"
      "description (heap s2 ! r3) = Some (''n_components: '' @ str_nat k)"
      "epochs_autoreject s2 = Some ?r4" "?r4 < length (heap s2)"
      "description (heap s2 ! ?r4) = Some (''n_components: '' @ str_nat k)"
    by (auto simp: nth_append)
  from run_keeps [OF cc] run_vars [OF cc] S2 have
    C: "epochs_faster sC = Some r3" "r3 < length (heap sC)"
      "description (heap sC ! r3) = Some (''n_components: '' @ str_nat k)"
      "epochs_autoreject sC = Some ?r4" "?r4 < length (heap sC)"
      "description (heap sC ! ?r4) = Some (''n_components: '' @ str_nat k)"
    by auto
  from exec_InterpolateRansac [OF i] C obtain names d' where
    s3: "s3 = sC\<lparr>heap := heap sC @
              [(heap sC ! ?r4)\<lparr>bads := names,
                 description := Some ((''n_components: '' @ str_nat k) @ '', interpolated: '' @
                   join '', '' names),
                 epo_data := d', bads := []\<rparr>],
            epochs_ransac := Some (length (heap sC))\<rparr>"
    by auto
  let ?r5 = "length (heap sC)"
  from s3 C have
    S3: "epochs_faster s3 = Some r3" "r3 < length (heap s3)"
      "description (heap s3 ! r3) = Some (''n_components: '' @ str_nat k)"
      "epochs_autoreject s3 = Some ?r4" "?r4 < length (heap s3)"
      "description (heap s3 ! ?r4) = Some (''n_components: '' @ str_nat k)"
      "epochs_ransac s3 = Some ?r5" "?r5 < length (heap s3)"
      "description (heap s3 ! ?r5) =
         Some (''n_components: '' @ str_nat k @ '', interpolated: '' @ join '', '' names)"
    by (auto simp: nth_append)
  from run_keeps [OF dd] run_vars [OF dd] S3 have
    "epochs_faster s = Some r3" "r3 < length (heap s)"
    "description (heap s ! r3) = Some (''n_components: '' @ str_nat k)"
    "epochs_autoreject s = Some ?r4" "?r4 < length (heap s)"
    "description (heap s ! ?r4) = Some (''n_components: '' @ str_nat k)"
    "epochs_ransac s = Some ?r5" "?r5 < length (heap s)"
    "description (heap s ! ?r5) =
       Some (''n_components: '' @ str_nat k @ '', interpolated: '' @ join '', '' names)"
    by auto
  then show ?thesis by blast
qed

text \<open>
  Claim C7. The audit trail is the description and the drop log of the epochs objects.
  For all collaborators and every session: no cell changes the length of the drop log
  of an existing object or its entry for an epoch that is no longer selected, so a
  recorded rejection stays; and no cell other than the ICA cell changes the
  description of an existing object. The ICA cell, which assigns the description,
  occurs once in the notebook, so on a run of the notebook nothing written by a stage is
  overwritten: at the end of every complete run the object \<^verbatim>\<open>epochs_faster\<close> names
  and its autoreject copy carry the excluded-component count \<^verbatim>\<open>n_components: k\<close>,
  and the object \<^verbatim>\<open>epochs_ransac\<close> names carries that count followed by
  \<^verbatim>\<open>, interpolated: \<close> and the interpolated channel names.
\<close>

theorem audit_trail_append_only:
  "(\<forall>c x s s'. exec c x s = Inr s' \<longrightarrow>
      (\<forall>r < length (heap s).
         (x \<noteq> ApplyIca \<longrightarrow> description (heap s' ! r) = description (heap s ! r)) \<and>
         length (drop_log (heap s' ! r)) = length (drop_log (heap s ! r)) \<and>
         (\<forall>k. k \<notin> set (selection (heap s ! r)) \<longrightarrow>
            drop_log (heap s' ! r) ! k = drop_log (heap s ! r) ! k))) \<and>
   filter (\<lambda>x. x = ApplyIca) (notebook_with low high n thr) = [ApplyIca] \<and>
   (\<forall>c s0 s. run c (notebook_with low high n thr) s0 = Inr s \<longrightarrow>
      (\<exists>k names r3 r4 r5.
         epochs_faster s = Some r3 \<and> r3 < length (heap s) \<and>
         description (heap s ! r3) = Some (''n_components: '' @ str_nat k) \<and>
         epochs_autoreject s = Some r4 \<and> r4 < length (heap s) \<and>
         description (heap s ! r4) = Some (''n_components: '' @ str_nat k) \<and>
         epochs_ransac s = Some r5 \<and> r5 < length (heap s) \<and>
         description (heap s ! r5) =
           Some (''n_components: '' @ str_nat k @ '', interpolated: '' @ join '', '' names)))"
proof (intro conjI allI impI)
  fix c x s s' r
  assume e: "exec c x s = Inr s'" and r: "r < length (heap s)"
  show "length (drop_log (heap s' ! r)) = length (drop_log (heap s ! r))"
    using exec_keeps_drop_log [OF e r] by simp
  { fix k assume "k \<notin> set (selection (heap s ! r))"
    then show "drop_log (heap s' ! r) ! k = drop_log (heap s ! r) ! k"
      using exec_keeps_drop_log [OF e r] by simp }
  { assume "x \<noteq> ApplyIca"
    then show "description (heap s' ! r) = description (heap s ! r)"
      using exec_keeps_description [OF e _ r] by simp }
next
  show "filter (\<lambda>x. x = ApplyIca) (notebook_with low high n thr) = [ApplyIca]"
    by (simp add: notebook_with_def)
next
  fix c s0 s
  assume "run c (notebook_with low high n thr) s0 = Inr s"
  then show "\<exists>k names r3 r4 r5.
         epochs_faster s = Some r3 \<and> r3 < length (heap s) \<and>
         description (heap s ! r3) = Some (''n_components: '' @ str_nat k) \<and>
         epochs_autoreject s = Some r4 \<and> r4 < length (heap s) \<and>
         description (heap s ! r4) = Some (''n_components: '' @ str_nat k) \<and>
         epochs_ransac s = Some r5 \<and> r5 < length (heap s) \<and>
         description (heap s ! r5) =
           Some (''n_components: '' @ str_nat k @ '', interpolated: '' @ join '', '' names)"
    by (rule notebook_trail)
qed

theorem audit_trail_append_only_witness:
  "\<not> isl (run demo_collab (notebook_with 1 30 20 (5 / 100)) demo_init) \<and>
   obj_of (run demo_collab (notebook_with 1 30 20 (5 / 100)) demo_init) epochs_ransac =
     Some \<lparr>epo_data = [[[1, 2], [3, 4]]], selection = [0],
           drop_log = [[], [''AUTOREJECT''], [''FASTER'']],
           description = Some ''n_components: 2, interpolated: Fp1'',
           fid = ''s01_ICA_autoreject_ransac'', bads = []\<rparr> \<and>
   (\<exists>s k names r3 r5. run demo_collab (notebook_with 1 30 20 (5 / 100)) demo_init = Inr s \<and>
      epochs_faster s = Some r3 \<and>
      description (heap s ! r3) = Some (''n_components: '' @ str_nat k) \<and>
      epochs_ransac s = Some r5 \<and>
      description (heap s ! r5) =
        Some (''n_components: '' @ str_nat k @ '', interpolated: '' @ join '', '' names))"
proof -
  let ?res = "run demo_collab (notebook_with 1 30 20 (5 / 100)) demo_init"
  have ok: "\<not> isl ?res" by code_simp
  have obj: "obj_of ?res epochs_ransac =
     Some \<lparr>epo_data = [[[1, 2], [3, 4]]], selection = [0],
           drop_log = [[], [''AUTOREJECT''], [''FASTER'']],
           description = Some ''n_components: 2, interpolated: Fp1'',
           fid = ''s01_ICA_autoreject_ransac'', bads = []\<rparr>"
    by code_simp
  from ok obtain s where s: "?res = Inr s" by (cases ?res) auto
  from audit_trail_append_only [of 1 30 20 "5 / 100"] s
  have "\<exists>k names r3 r4 r5.
         epochs_faster s = Some r3 \<and> r3 < length (heap s) \<and>
         description (heap s ! r3) = Some (''n_components: '' @ str_nat k) \<and>
         epochs_autoreject s = Some r4 \<and> r4 < length (heap s) \<and>
         description (heap s ! r4) = Some (''n_components: '' @ str_nat k) \<and>
         epochs_ransac s = Some r5 \<and> r5 < length (heap s) \<and>
         description (heap s ! r5) =
           Some (''n_components: '' @ str_nat k @ '', interpolated: '' @ join '', '' names)"
    by blast
  then have "\<exists>k names r3 r5. epochs_faster s = Some r3 \<and>
      description (heap s ! r3) = Some (''n_components: '' @ str_nat k) \<and>
      epochs_ransac s = Some r5 \<and>
      description (heap s ! r5) =
        Some (''n_components: '' @ str_nat k @ '', interpolated: '' @ join '', '' names)"
    by blast
  with ok obj s show ?thesis by blast
qed

text \<open>
  Claim C9, as the code has it. Each settings cell stores the value it is given,
  whatever the value: when the section exists the assignment succeeds and changes
  nothing but that entry. The bandpass cell is the first cell; the cell that sets the
  number of ICA components runs after filtering, segmentation, channel picking and the
  preliminary rejection; the cell that sets the RANSAC threshold runs after the ICA and
  autoreject stages have run and their results have been saved and logged.
\<close>

theorem settings_assigned_unchecked:
  "(settings s ''bandpass_filter'' = Some d \<longrightarrow>
      exec c (SetBandpass low high) s =
        Inr (s\<lparr>settings := (settings s)(''bandpass_filter'' \<mapsto>
               d(''low_freq'' \<mapsto> Num low, ''high_freq'' \<mapsto> Num high))\<rparr>)) \<and>
   (settings s ''ica'' = Some d \<longrightarrow>
      exec c (SetIcaComponents n) s =
        Inr (s\<lparr>settings := (settings s)(''ica'' \<mapsto> d(''n_components'' \<mapsto> Num n))\<rparr>)) \<and>
   (settings s ''ransac'' = Some d \<longrightarrow>
      exec c (SetRansacThreshold thr) s =
        Inr (s\<lparr>settings := (settings s)(''ransac'' \<mapsto> d(''threshold'' \<mapsto> Num thr))\<rparr>)) \<and>
   cells_before (SetBandpass low high) (notebook_with low high n thr) = [] \<and>
   cells_before (SetIcaComponents n) (notebook_with low high n thr) =
     [SetBandpass low high, FilterRaw, CreateEpochs, PickChannels, PrepareEpochs] \<and>
   cells_before (SetRansacThreshold thr) (notebook_with low high n thr) =
     [SetBandpass low high, FilterRaw, CreateEpochs, PickChannels,
      PrepareEpochs, SetIcaComponents n, RunIca, PlotSources, ApplyIca,
      PlotFaster, SaveIca, LogIca,
      RunAutoreject, DropAutoreject Strict, PlotAutoreject, SaveAutoreject, LogAutoreject]"
  by (simp add: set_setting_def cells_before_def notebook_with_def)

text \<open>
  Claim C9 as stated says that a malformed value is rejected when the configuration is
  loaded, before any signal processing. In the demo session a negative low cutoff is
  stored by the first cell, and a negative RANSAC threshold is stored by its cell at a
  point where the autoreject stage has already produced and saved its epochs.
\<close>

theorem malformed_values_accepted:
  "setting_of (run demo_collab (cells_through (SetBandpass (- 1) 30) (notebook_with (- 1) 30 20 (5 / 100)))
      demo_init) ''bandpass_filter'' ''low_freq'' = Some (Num (- 1)) \<and>
   setting_of (run demo_collab (cells_through (SetRansacThreshold (- 1)) (notebook_with 1 30 20 (- 1)))
      demo_init) ''ransac'' ''threshold'' = Some (Num (- 1)) \<and>
   obj_of (run demo_collab (cells_through (SetRansacThreshold (- 1)) (notebook_with 1 30 20 (- 1)))
      demo_init) epochs_autoreject =
     Some \<lparr>epo_data = [[[1, 2], [3, 4]]], selection = [0],
           drop_log = [[], [''AUTOREJECT''], [''FASTER'']],
           description = Some ''n_components: 2'', fid = ''s01_ICA_autoreject'', bads = []\<rparr>"
  by code_simp

theorem settings_assigned_unchecked_witness:
  "settings demo_init ''ransac'' = Some [''threshold'' \<mapsto> Num (1 / 10)] \<and>
   setting_of (exec demo_collab (SetRansacThreshold (- 1)) demo_init) ''ransac'' ''threshold'' =
     Some (Num (- 1)) \<and>
   settings demo_init ''bandpass_filter'' =
     Some [''low_freq'' \<mapsto> Num (1 / 2), ''high_freq'' \<mapsto> Num 45] \<and>
   setting_of (exec demo_collab (SetBandpass 40 (- 3)) demo_init) ''bandpass_filter'' ''high_freq'' =
     Some (Num (- 3)) \<and>
   settings demo_init ''ica'' = Some [''n_components'' \<mapsto> Num 32] \<and>
   setting_of (exec demo_collab (SetIcaComponents (- 20)) demo_init) ''ica'' ''n_components'' =
     Some (Num (- 20))"
proof -
  have r: "settings demo_init ''ransac'' = Some [''threshold'' \<mapsto> Num (1 / 10)]"
    and b: "settings demo_init ''bandpass_filter'' =
      Some [''low_freq'' \<mapsto> Num (1 / 2), ''high_freq'' \<mapsto> Num 45]"
    and i: "settings demo_init ''ica'' = Some [''n_components'' \<mapsto> Num 32]"
    by (simp_all add: demo_init_def init_state_def demo_settings_def)
  from settings_assigned_unchecked [of demo_init "[''threshold'' \<mapsto> Num (1 / 10)]"
      demo_collab 40 "- 3" "- 20" "- 1"] r
  have r': "setting_of (exec demo_collab (SetRansacThreshold (- 1)) demo_init) ''ransac'' ''threshold'' =
     Some (Num (- 1))"
    by (simp add: setting_of_def)
  from settings_assigned_unchecked [of demo_init
      "[''low_freq'' \<mapsto> Num (1 / 2), ''high_freq'' \<mapsto> Num 45]" demo_collab 40 "- 3" "- 20" "- 1"] b
  have b': "setting_of (exec demo_collab (SetBandpass 40 (- 3)) demo_init) ''bandpass_filter''
      ''high_freq'' = Some (Num (- 3))"
    by (simp add: setting_of_def)
  from settings_assigned_unchecked [of demo_init "[''n_components'' \<mapsto> Num 32]"
      demo_collab 40 "- 3" "- 20" "- 1"] i
  have i': "setting_of (exec demo_collab (SetIcaComponents (- 20)) demo_init) ''ica'' ''n_components'' =
     Some (Num (- 20))"
    by (simp add: setting_of_def)
  from r r' b b' i i' show ?thesis by blast
qed

lemma drop_epochs_Inr:
  assumes "\<forall>i \<in> set idx. i < length (selection obj)"
  shows "\<exists>kept. drop_epochs idx reason obj = Inr kept \<and>
           selection kept = map (\<lambda>i. selection obj ! i)
             (filter (\<lambda>i. i \<notin> set idx) [0..<length (selection obj)]) \<and>
           epo_data kept = map (\<lambda>i. epo_data obj ! i)
             (filter (\<lambda>i. i \<notin> set idx) [0..<length (selection obj)])"
  using assms by (auto simp: drop_epochs_def Let_def)

lemma kept_iff:
  assumes "distinct sel" and "i < length sel"
  shows "sel ! i \<in> set (map (\<lambda>j. sel ! j) (filter (\<lambda>j. j \<notin> S) [0..<length sel])) \<longleftrightarrow> i \<notin> S"
  using assms by (auto simp: nth_eq_iff_index_eq)

lemma set_strict_report:
  "set (strict_report thr lab) = {i. i < length lab \<and> thr < bad_fraction (lab ! i)}"
  by (auto simp: strict_report_def)

lemma set_where_true: "set (where_true flags) = {i. i < length flags \<and> flags ! i}"
  by (auto simp: where_true_def)

lemma drop_policy:
  assumes ef: "epochs_faster s = Some r0" "r0 < length (heap s)"
    and rl: "reject_log s = Some rl"
    and inb: "\<forall>i \<in> set (drop_indices p rl). i < length (selection (heap s ! r0))"
    and dist: "distinct (selection (heap s ! r0))"
  shows "\<exists>s' kept. exec c (DropAutoreject p) s = Inr s' \<and>
           epochs_autoreject s' = Some (length (heap s)) \<and> heap s' = heap s @ [kept] \<and>
           (\<forall>i < length (selection (heap s ! r0)).
              selection (heap s ! r0) ! i \<notin> set (selection kept) \<longleftrightarrow>
                i \<in> set (drop_indices p rl))"
proof -
  from drop_epochs_Inr [OF inb, of "''AUTOREJECT''"] obtain kept where
    d: "drop_epochs (drop_indices p rl) ''AUTOREJECT'' (heap s ! r0) = Inr kept" and
    sel: "selection kept = map (\<lambda>i. selection (heap s ! r0) ! i)
       (filter (\<lambda>i. i \<notin> set (drop_indices p rl)) [0..<length (selection (heap s ! r0))])"
    by blast
  have "exec c (DropAutoreject p) s =
      Inr (s\<lparr>heap := heap s @ [kept], epochs_autoreject := Some (length (heap s))\<rparr>)"
    using ef rl d by (simp add: deref_def alloc_def store_def)
  moreover have "\<forall>i < length (selection (heap s ! r0)).
      selection (heap s ! r0) ! i \<notin> set (selection kept) \<longleftrightarrow> i \<in> set (drop_indices p rl)"
    unfolding sel using kept_iff [OF dist] by blast
  ultimately show ?thesis by simp
qed

text \<open>
  Claim C3. Let \<^verbatim>\<open>epochs_faster\<close> name an object with distinct epoch tags, and let the
  reject log have one row of labels and one mask entry per epoch, its report being the
  strict report for the threshold. Then the autoreject cell succeeds under either
  policy and binds \<^verbatim>\<open>epochs_autoreject\<close> to a new object; under the strict policy an
  epoch of the input is missing from the new object if and only if the fraction of its
  channels labelled bad exceeds the threshold, and under the lenient policy if and only
  if the epoch is marked bad as a whole.
\<close>

theorem autoreject_drop_policies:
  assumes ef: "epochs_faster s = Some r0" "r0 < length (heap s)"
    and rl: "reject_log s = Some rl"
    and rep: "report rl = strict_report threshold (labels rl)"
    and n1: "length (labels rl) = length (selection (heap s ! r0))"
    and n2: "length (bad_epochs rl) = length (selection (heap s ! r0))"
    and dist: "distinct (selection (heap s ! r0))"
  shows "(\<exists>s' kept. exec c (DropAutoreject Strict) s = Inr s' \<and>
            epochs_autoreject s' = Some (length (heap s)) \<and> heap s' = heap s @ [kept] \<and>
            (\<forall>i < length (selection (heap s ! r0)).
               selection (heap s ! r0) ! i \<notin> set (selection kept) \<longleftrightarrow>
                 threshold < bad_fraction (labels rl ! i))) \<and>
         (\<exists>s' kept. exec c (DropAutoreject Lenient) s = Inr s' \<and>
            epochs_autoreject s' = Some (length (heap s)) \<and> heap s' = heap s @ [kept] \<and>
            (\<forall>i < length (selection (heap s ! r0)).
               selection (heap s ! r0) ! i \<notin> set (selection kept) \<longleftrightarrow> bad_epochs rl ! i))"
proof
  have inb: "\<forall>i \<in> set (drop_indices Strict rl). i < length (selection (heap s ! r0))"
    using n1 by (simp add: drop_indices_def rep set_strict_report)
  from drop_policy [OF ef rl inb dist, of c] obtain s' kept where
    "exec c (DropAutoreject Strict) s = Inr s'" "epochs_autoreject s' = Some (length (heap s))"
    "heap s' = heap s @ [kept]"
    "\<forall>i < length (selection (heap s ! r0)).
       selection (heap s ! r0) ! i \<notin> set (selection kept) \<longleftrightarrow> i \<in> set (drop_indices Strict rl)"
    by blast
  then show "\<exists>s' kept. exec c (DropAutoreject Strict) s = Inr s' \<and>
            epochs_autoreject s' = Some (length (heap s)) \<and> heap s' = heap s @ [kept] \<and>
            (\<forall>i < length (selection (heap s ! r0)).
               selection (heap s ! r0) ! i \<notin> set (selection kept) \<longleftrightarrow>
                 threshold < bad_fraction (labels rl ! i))"
    using n1 by (auto simp: drop_indices_def rep set_strict_report)
next
  have inb: "\<forall>i \<in> set (drop_indices Lenient rl). i < length (selection (heap s ! r0))"
    using n2 by (simp add: drop_indices_def set_where_true)
  from drop_policy [OF ef rl inb dist, of c] obtain s' kept where
    "exec c (DropAutoreject Lenient) s = Inr s'" "epochs_autoreject s' = Some (length (heap s))"
    "heap s' = heap s @ [kept]"
    "\<forall>i < length (selection (heap s ! r0)).
       selection (heap s ! r0) ! i \<notin> set (selection kept) \<longleftrightarrow> i \<in> set (drop_indices Lenient rl)"
    by blast
  then show "\<exists>s' kept. exec c (DropAutoreject Lenient) s = Inr s' \<and>
            epochs_autoreject s' = Some (length (heap s)) \<and> heap s' = heap s @ [kept] \<and>
            (\<forall>i < length (selection (heap s ! r0)).
               selection (heap s ! r0) ! i \<notin> set (selection kept) \<longleftrightarrow> bad_epochs rl ! i)"
    using n2 by (auto simp: drop_indices_def set_where_true)
qed

theorem autoreject_drop_policies_witness:
  "\<exists>s s' kept. run demo_collab (cells_before (DropAutoreject Strict) notebook) demo_init = Inr s \<and>
     epochs_faster s = Some 2 \<and> 2 < length (heap s) \<and>
     reject_log s = Some \<lparr>labels = [[False, False], [True, False]],
                           bad_epochs = [False, True], report = [1]\<rparr> \<and>
     [1] = strict_report (15 / 100) [[False, False], [True, False]] \<and>
     selection (heap s ! 2) = [0, 1] \<and>
     exec demo_collab (DropAutoreject Strict) s = Inr s' \<and> heap s' = heap s @ [kept] \<and>
     0 \<in> set (selection kept) \<and> 1 \<notin> set (selection kept)"
proof -
  let ?r = "run demo_collab (cells_before (DropAutoreject Strict) notebook) demo_init"
  let ?rl = "\<lparr>labels = [[False, False], [True, False]], bad_epochs = [False, True], report = [1]\<rparr>"
  let ?obj = "\<lparr>epo_data = [[[1, 2], [3, 4]], [[1, 2], [3, 4]]], selection = [0, 1],
           drop_log = [[], [], [''FASTER'']], description = Some ''n_components: 2'',
           fid = ''s01_ICA'', bads = []\<rparr>"
  have ok: "\<not> isl ?r" by code_simp
  then obtain s where s: "?r = Inr s" by (cases ?r) auto
  have "ref_of ?r epochs_faster = Some 2" by code_simp
  then have ef: "epochs_faster s = Some 2" by (simp add: s ref_of_def)
  have "obj_of ?r epochs_faster = Some ?obj" by code_simp
  then have hp: "2 < length (heap s)" and obj: "heap s ! 2 = ?obj"
    using ef by (auto simp: s obj_of_def deref_def split: if_splits)
  have "ref_of ?r reject_log = Some ?rl" by code_simp
  then have rl: "reject_log s = Some ?rl" by (simp add: s ref_of_def)
  have sr: "[1] = strict_report (15 / 100) [[False, False], [True, False]]"
    by (simp add: strict_report_def bad_fraction_def upt_conv_Cons)
  have rep: "report ?rl = strict_report (15 / 100) (labels ?rl)"
    using sr by simp
  have n1: "length (labels ?rl) = length (selection (heap s ! 2))" by (simp add: obj)
  have n2: "length (bad_epochs ?rl) = length (selection (heap s ! 2))" by (simp add: obj)
  have dist: "distinct (selection (heap s ! 2))" by (simp add: obj)
  from autoreject_drop_policies [OF ef hp rl rep n1 n2 dist, of demo_collab, THEN conjunct1]
  obtain s' kept where e: "exec demo_collab (DropAutoreject Strict) s = Inr s'"
    and h: "heap s' = heap s @ [kept]"
    and iff: "\<forall>i < length (selection (heap s ! 2)).
       selection (heap s ! 2) ! i \<notin> set (selection kept) \<longleftrightarrow>
         15 / 100 < bad_fraction (labels ?rl ! i)"
    by blast
  have "0 \<in> set (selection kept)"
    using iff [rule_format, of 0] by (simp add: obj bad_fraction_def)
  moreover have "1 \<notin> set (selection kept)"
    using iff [rule_format, of 1] by (simp add: obj bad_fraction_def)
  ultimately show ?thesis using s ef hp rl sr obj e h by auto
qed


end
